theory Spec2Isabelle
  imports Complex_Main
begin

section \<open>syamfp: a formula parser built on the Shunting-Yard algorithm\<close>

text \<open>
  A shallow embedding of \<^verbatim>\<open>include/syamfp.hpp\<close>. The header is a template over the value
  type \<^verbatim>\<open>Type\<close>; the constructor \<^verbatim>\<open>Token(const std::string&)\<close> casts a
  \<^verbatim>\<open>std::complex<double>\<close> to \<^verbatim>\<open>Type\<close>, so the model instantiates
  \<^verbatim>\<open>Type\<close> at \<^verbatim>\<open>std::complex<double>\<close>. Floating-point numbers are idealised:
  \<^verbatim>\<open>double\<close> is \<^typ>\<open>real\<close> and \<^verbatim>\<open>std::complex<double>\<close> is \<^typ>\<open>complex\<close>,
  with exact arithmetic. Exceptions and undefined behaviour are values of the type
  \<open>error\<close>; a function that can raise returns \<open>error + 'a\<close>.
\<close>

subsection \<open>Errors\<close>

datatype error =
    out_of_range
  | invalid_argument string
  | runtime_error string
  | length_error
  | undefined_behaviour string

text \<open>Sequencing of computations that may raise.\<close>

definition bind_err :: "error + 'a \<Rightarrow> ('a \<Rightarrow> error + 'b) \<Rightarrow> error + 'b" where
  "bind_err m f = (case m of Inl e \<Rightarrow> Inl e | Inr x \<Rightarrow> f x)"

subsection \<open>Tokens\<close>

type_synonym ValueType = real

type_synonym Type = complex

text \<open>
  \<^verbatim>\<open>Func<Type>\<close> is a pointer to a function from an argument vector to a value. The
  model keeps the function itself; it returns an error where the C++ function would
  read its argument vector out of range. A null pointer is \<open>None\<close>.
\<close>

type_synonym Func = "(Type list \<Rightarrow> error + Type) option"

datatype TokenType =
    Variable
  | Constant
  | Real
  | Imaginary
  | Operator
  | Func1
  | Func2
  | Func3
  | LParen
  | RParen
  | Comma

record Token =
  str :: string
  type :: TokenType
  arg_num :: int
  val :: Type
  func :: Func

text \<open>The field \<^verbatim>\<open>value\<close> of the source is \<open>val\<close> here.\<close>

subsection \<open>The functions of the C++ library on complex numbers\<close>

text \<open>
  Principal values, as \<^verbatim>\<open><complex>\<close> specifies them. \<open>std_log\<close> is the complex
  logarithm with its branch cut along the negative real axis, and \<open>std_pow\<close> is
  \<^verbatim>\<open>exp(y * log(x))\<close>, with \<^verbatim>\<open>pow(0, y) = 0\<close>.
  They are the exact functions: the program's results are these values rounded by the
  library, and that rounding is not modelled. The theorems below that evaluate a
  formula use sums and products of small integers and \<^verbatim>\<open>sin(0)\<close> only, which are
  exact in \<^verbatim>\<open>double\<close> arithmetic as well; of \<open>std_pow\<close> they use only that it is a
  function.
\<close>

definition std_log :: "complex \<Rightarrow> complex" where
  "std_log z = Complex (ln (cmod z)) (Arg z)"

definition std_log10 :: "complex \<Rightarrow> complex" where
  "std_log10 z = std_log z / of_real (ln 10)"

definition std_pow :: "complex \<Rightarrow> complex \<Rightarrow> complex" where
  "std_pow x y = (if x = 0 then 0 else exp (y * std_log x))"

definition std_asin :: "complex \<Rightarrow> complex" where
  "std_asin z = - \<i> * std_log (\<i> * z + csqrt (1 - z * z))"

definition std_acos :: "complex \<Rightarrow> complex" where
  "std_acos z = - \<i> * std_log (z + \<i> * csqrt (1 - z * z))"

definition std_atan :: "complex \<Rightarrow> complex" where
  "std_atan z = (\<i> / 2) * (std_log (1 - \<i> * z) - std_log (1 + \<i> * z))"

definition std_asinh :: "complex \<Rightarrow> complex" where
  "std_asinh z = std_log (z + csqrt (z * z + 1))"

definition std_acosh :: "complex \<Rightarrow> complex" where
  "std_acosh z = std_log (z + csqrt (z + 1) * csqrt (z - 1))"

definition std_atanh :: "complex \<Rightarrow> complex" where
  "std_atanh z = (std_log (1 + z) - std_log (1 - z)) / 2"

subsection \<open>The lambdas of the reserved tokens\<close>

text \<open>\<^verbatim>\<open>args[n]\<close> on a \<^verbatim>\<open>std::vector\<close>: reading past the end is undefined behaviour.\<close>

definition arg :: "Type list \<Rightarrow> nat \<Rightarrow> error + Type" where
  "arg args n =
     (if n < length args then Inr (args ! n)
      else Inl (undefined_behaviour ''vector subscript out of range''))"

text \<open>A lambda that reads \<^verbatim>\<open>args[0]\<close>, and one that reads \<^verbatim>\<open>args[0]\<close> and \<^verbatim>\<open>args[1]\<close>.\<close>

definition lambda1 :: "(Type \<Rightarrow> Type) \<Rightarrow> Type list \<Rightarrow> error + Type" where
  "lambda1 f args = bind_err (arg args 0) (\<lambda>a. Inr (f a))"

definition lambda2 :: "(Type \<Rightarrow> Type \<Rightarrow> Type) \<Rightarrow> Type list \<Rightarrow> error + Type" where
  "lambda2 f args = bind_err (arg args 0) (\<lambda>a. bind_err (arg args 1) (\<lambda>b. Inr (f a b)))"

subsection \<open>The registry\<close>

text \<open>
  \<^verbatim>\<open>RESERVED_TOKEN\<close> is a global \<^verbatim>\<open>std::unordered_map\<close> that
  \<^verbatim>\<open>add_custom_function\<close> extends, so every function that reads it takes the
  current registry as its first argument. The constants of \<^verbatim>\<open>std::numbers\<close> are their
  mathematical values; \<^verbatim>\<open>egamma\<close> is the decimal expansion the library header gives.
\<close>

type_synonym Registry = "string \<rightharpoonup> Token"

definition mk_Token :: "string \<Rightarrow> TokenType \<Rightarrow> int \<Rightarrow> Type \<Rightarrow> Func \<Rightarrow> Token" where
  "mk_Token s t n v f = \<lparr>str = s, type = t, arg_num = n, val = v, func = f\<rparr>"

definition RESERVED_LIST :: "(string \<times> Token) list" where
  "RESERVED_LIST =
   [ (''+'', mk_Token ''+'' Operator 2 0 (Some (lambda2 (\<lambda>a b. a + b)))),
     (''-'', mk_Token ''-'' Operator 2 0 (Some (lambda2 (\<lambda>a b. a - b)))),
     (''*'', mk_Token ''*'' Operator 2 0 (Some (lambda2 (\<lambda>a b. a * b)))),
     (''/'', mk_Token ''/'' Operator 2 0 (Some (lambda2 (\<lambda>a b. a / b)))),
     (''^'', mk_Token ''/'' Operator 2 0 (Some (lambda2 std_pow))),
     (''('', mk_Token ''('' LParen 0 0 None),
     ('')'', mk_Token '')'' RParen 0 0 None),
     ('','', mk_Token '','' Comma 0 0 None),
     (''pi'', mk_Token ''pi'' Constant 0 (of_real pi) None),
     (''inv_pi'', mk_Token ''inv_pi'' Constant 0 (of_real (1 / pi)) None),
     (''inv_sqrtpi'', mk_Token ''inv_sqrtpi'' Constant 0 (of_real (1 / sqrt pi)) None),
     (''e'', mk_Token ''e'' Constant 0 (of_real (exp 1)) None),
     (''sqrt2'', mk_Token ''sqrt2'' Constant 0 (of_real (sqrt 2)) None),
     (''sqrt3'', mk_Token ''sqrt3'' Constant 0 (of_real (sqrt 3)) None),
     (''ln2'', mk_Token ''ln2'' Constant 0 (of_real (ln 2)) None),
     (''ln10'', mk_Token ''ln10'' Constant 0 (of_real (ln 10)) None),
     (''log2e'', mk_Token ''log2e'' Constant 0 (of_real (1 / ln 2)) None),
     (''log10e'', mk_Token ''log10e'' Constant 0 (of_real (1 / ln 10)) None),
     (''egamma'', mk_Token ''egamma'' Constant 0
        (of_real (577215664901532860606512090082402431042 / 10 ^ 39)) None),
     (''phi'', mk_Token ''phi'' Constant 0 (of_real ((1 + sqrt 5) / 2)) None),
     (''sin'', mk_Token ''sin'' Func1 1 0 (Some (lambda1 sin))),
     (''cos'', mk_Token ''cos'' Func1 1 0 (Some (lambda1 cos))),
     (''tan'', mk_Token ''tan'' Func1 1 0 (Some (lambda1 tan))),
     (''asin'', mk_Token ''asin'' Func1 1 0 (Some (lambda1 std_asin))),
     (''acos'', mk_Token ''acos'' Func1 1 0 (Some (lambda1 std_acos))),
     (''atan'', mk_Token ''atan'' Func1 1 0 (Some (lambda1 std_atan))),
     (''sinh'', mk_Token ''sinh'' Func1 1 0 (Some (lambda1 sinh))),
     (''cosh'', mk_Token ''cosh'' Func1 1 0 (Some (lambda1 cosh))),
     (''tanh'', mk_Token ''tanh'' Func1 1 0 (Some (lambda1 tanh))),
     (''asinh'', mk_Token ''asinh'' Func1 1 0 (Some (lambda1 std_asinh))),
     (''acosh'', mk_Token ''acosh'' Func1 1 0 (Some (lambda1 std_acosh))),
     (''atanh'', mk_Token ''atanh'' Func1 1 0 (Some (lambda1 std_atanh))),
     (''exp'', mk_Token ''exp'' Func1 1 0 (Some (lambda1 exp))),
     (''log'', mk_Token ''log'' Func1 1 0 (Some (lambda1 std_log))),
     (''log10'', mk_Token ''log10'' Func1 1 0 (Some (lambda1 std_log10))),
     (''ln'', mk_Token ''ln'' Func1 1 0 (Some (lambda1 std_log))),
     (''sqrt'', mk_Token ''sqrt'' Func1 1 0 (Some (lambda1 csqrt))),
     (''pow'', mk_Token ''pow'' Func2 2 0 (Some (lambda2 std_pow))) ]"

definition RESERVED_TOKEN :: Registry where
  "RESERVED_TOKEN = map_of RESERVED_LIST"

text \<open>\<^verbatim>\<open>LPAREN_p\<close> points to the entry of \<^verbatim>\<open>"("\<close>, which no registration replaces.\<close>

definition LPAREN_p :: Token where
  "LPAREN_p = mk_Token ''('' LParen 0 0 None"

subsection \<open>Literal recognition\<close>

definition is_digit :: "char \<Rightarrow> bool" where
  "is_digit c = (c \<in> set ''0123456789'')"

definition is_sign :: "char \<Rightarrow> bool" where
  "is_sign c = (c = CHR ''+'' \<or> c = CHR ''-'')"

text \<open>The pieces of the two regular expressions; each returns what is left of the input.\<close>

definition opt_sign :: "string \<Rightarrow> string" where
  "opt_sign s = (case s of [] \<Rightarrow> [] | c # r \<Rightarrow> if is_sign c then r else s)"

text \<open>
  \<^verbatim>\<open>(\.\d+)?\<close>: a dot that no digit follows cannot be skipped either, since nothing
  after the group starts with a dot; \<open>None\<close> says that no match exists.
\<close>

definition opt_fraction :: "string \<Rightarrow> string option" where
  "opt_fraction s =
     (case s of
        [] \<Rightarrow> Some []
      | c # r \<Rightarrow>
          if c = CHR ''.'' then
            (if takeWhile is_digit r = [] then None else Some (dropWhile is_digit r))
          else Some s)"

text \<open>\<^verbatim>\<open>([eE][+-]?\d+)?\<close>, in the same way.\<close>

definition opt_exponent :: "string \<Rightarrow> string option" where
  "opt_exponent s =
     (case s of
        [] \<Rightarrow> Some []
      | c # r \<Rightarrow>
          if c = CHR ''e'' \<or> c = CHR ''E'' then
            (if takeWhile is_digit (opt_sign r) = [] then None
             else Some (dropWhile is_digit (opt_sign r)))
          else Some s)"

text \<open>\<^verbatim>\<open>^[+-]?\d+(\.\d+)?([eE][+-]?\d+)?$\<close>\<close>

definition is_real :: "string \<Rightarrow> bool" where
  "is_real token =
     (let r = opt_sign token in
      takeWhile is_digit r \<noteq> [] \<and>
      (case opt_fraction (dropWhile is_digit r) of
         None \<Rightarrow> False
       | Some r2 \<Rightarrow> (case opt_exponent r2 of None \<Rightarrow> False | Some r3 \<Rightarrow> r3 = [])))"

text \<open>\<^verbatim>\<open>^[+-]?\d*(\.\d+)?([eE][+-]?\d+)?i$\<close>\<close>

definition is_imaginary :: "string \<Rightarrow> bool" where
  "is_imaginary token =
     (let r = opt_sign token in
      (case opt_fraction (dropWhile is_digit r) of
         None \<Rightarrow> False
       | Some r2 \<Rightarrow> (case opt_exponent r2 of None \<Rightarrow> False | Some r3 \<Rightarrow> r3 = ''i'')))"

definition is_left_assoc :: "string \<Rightarrow> error + bool" where
  "is_left_assoc Operator' =
     (case map_of [(''+'', True), (''-'', True), (''*'', True), (''/'', True), (''^'', False)]
             Operator' of
        None \<Rightarrow> Inl out_of_range
      | Some b \<Rightarrow> Inr b)"

definition ret_preced :: "string \<Rightarrow> error + int" where
  "ret_preced Operator' =
     (case map_of [(''+'', 0), (''-'', 0), (''*'', 1), (''/'', 1), (''^'', 2)] Operator' of
        None \<Rightarrow> Inl out_of_range
      | Some p \<Rightarrow> Inr p)"

subsection \<open>\<^verbatim>\<open>std::from_chars\<close>\<close>

definition digits_value :: "string \<Rightarrow> nat" where
  "digits_value ds = foldl (\<lambda>a c. 10 * a + (of_char c - 48)) 0 ds"

text \<open>
  The general floating-point format: an optional minus sign (a plus sign is not
  accepted), digits with an optional fraction, at least one digit in all, and an
  optional exponent, which is read only when it has a digit. The longest such prefix is
  converted; \<open>None\<close> is the failure, which leaves the output variable as it was.
  A value that no \<^verbatim>\<open>double\<close> is near is a failure as well
  (\<^verbatim>\<open>result_out_of_range\<close>): one that rounds to infinity, or a nonzero one that
  rounds to zero. Inside the range the model keeps the exact decimal value, where the
  program has the nearest \<^verbatim>\<open>double\<close>.
\<close>

definition in_double_range :: "ValueType \<Rightarrow> bool" where
  "in_double_range v = (v = 0 \<or> (1 / 2 ^ 1075 < \<bar>v\<bar> \<and> \<bar>v\<bar> < 2 ^ 1024 - 2 ^ 970))"

definition from_chars :: "string \<Rightarrow> ValueType option" where
  "from_chars s =
     (let neg = (s \<noteq> [] \<and> hd s = CHR ''-'');
          r = (if neg then tl s else s);
          ip = takeWhile is_digit r;
          r1 = dropWhile is_digit r;
          dot = (r1 \<noteq> [] \<and> hd r1 = CHR ''.'');
          fp = (if dot then takeWhile is_digit (tl r1) else []);
          r2 = (if dot then dropWhile is_digit (tl r1) else r1);
          ex = (r2 \<noteq> [] \<and> (hd r2 = CHR ''e'' \<or> hd r2 = CHR ''E''));
          eneg = (ex \<and> tl r2 \<noteq> [] \<and> hd (tl r2) = CHR ''-'');
          ed = (if ex then takeWhile is_digit (opt_sign (tl r2)) else []);
          m = real (digits_value ip) + real (digits_value fp) / 10 ^ length fp;
          v = (if eneg then m / 10 ^ digits_value ed else m * 10 ^ digits_value ed)
      in if ip = [] \<and> fp = [] then None
         else if in_double_range v then Some (if neg then - v else v)
         else None)"

subsection \<open>The constructor \<^verbatim>\<open>Token(const std::string&)\<close>\<close>

text \<open>
  A registered string takes the entry's type, arity, value and function, and keeps the
  string it was built from. Otherwise the local \<^verbatim>\<open>val\<close> is uninitialised until
  \<^verbatim>\<open>from_chars\<close> writes it: reading it after a failed conversion is undefined
  behaviour.
\<close>

definition Token_of :: "Registry \<Rightarrow> string \<Rightarrow> error + Token" where
  "Token_of R s =
     (case R s of
        Some p \<Rightarrow> Inr (mk_Token s (type p) (arg_num p) (val p) (func p))
      | None \<Rightarrow>
          if is_real s then
            (case from_chars s of
               Some v \<Rightarrow> Inr (mk_Token s Real 0 (of_real v) None)
             | None \<Rightarrow> Inl (undefined_behaviour ''read of uninitialised val''))
          else if is_imaginary s then
            (if length s = 1 then Inr (mk_Token s Imaginary 0 (of_real 1 * \<i>) None)
             else
               (case from_chars (butlast s) of
                  Some v \<Rightarrow> Inr (mk_Token s Imaginary 0 (of_real v * \<i>) None)
                | None \<Rightarrow> Inl (undefined_behaviour ''read of uninitialised val'')))
          else Inr (mk_Token s Variable 0 0 None))"

subsection \<open>The tokenizer\<close>

type_synonym Tokens = "Token list"

definition isspace :: "char \<Rightarrow> bool" where
  "isspace c = (c \<in> set [CHR '' '', CHR 0x09, CHR 0x0A, CHR 0x0B, CHR 0x0C, CHR 0x0D])"

definition is_operator :: "Registry \<Rightarrow> string \<Rightarrow> bool" where
  "is_operator R s =
     (case R s of
        None \<Rightarrow> False
      | Some p \<Rightarrow> type p = Operator \<or> type p = LParen \<or> type p = RParen \<or> type p = Comma)"

text \<open>
  The loop of \<^verbatim>\<open>devide_to_tokens\<close> over the characters of the formula: \<open>tokens\<close> is the
  deque built so far and \<open>s\<close> the candidate, a view of the formula that ends just before
  the current character, so that lengthening it by one appends that character.
\<close>

fun devide_loop :: "Registry \<Rightarrow> Tokens \<Rightarrow> string \<Rightarrow> string \<Rightarrow> error + Tokens" where
  "devide_loop R tokens s [] =
     (if s \<noteq> [] then
        (case Token_of R s of Inl e \<Rightarrow> Inl e | Inr t \<Rightarrow> Inr (tokens @ [t]))
      else Inr tokens)"
| "devide_loop R tokens s (c # cs) =
     (if isspace c then
        (if s \<noteq> [] then
           (case Token_of R s of
              Inl e \<Rightarrow> Inl e
            | Inr t \<Rightarrow> devide_loop R (tokens @ [t]) [] cs)
         else devide_loop R tokens s cs)
      else if s = [] then devide_loop R tokens [c] cs
      else if is_operator R (s @ [c]) then devide_loop R tokens (s @ [c]) cs
      else if is_operator R s \<or> is_operator R [c] then
        (case Token_of R s of
           Inl e \<Rightarrow> Inl e
         | Inr t \<Rightarrow> devide_loop R (tokens @ [t]) [c] cs)
      else devide_loop R tokens (s @ [c]) cs)"

definition devide_to_tokens :: "Registry \<Rightarrow> string \<Rightarrow> error + Tokens" where
  "devide_to_tokens R formula = devide_loop R [] [] formula"

subsection \<open>The Shunting-Yard converter\<close>

text \<open>
  \<^verbatim>\<open>rpn\<close> is the output vector in its own order. The operator stack is a vector used
  only at its back; the model keeps it top first, so \<^verbatim>\<open>stack.back()\<close> is the head of
  the list, \<^verbatim>\<open>pop_back\<close> its tail and \<^verbatim>\<open>emplace_back\<close> is \<open>#\<close>.
\<close>

type_synonym RPNs = "Token list"

text \<open>
  \<^verbatim>\<open>operator==\<close> on tokens compares all five fields, function pointers included. The
  model compares the functions; the converter only compares with \<open>LPAREN_p\<close>, whose
  pointer is null, where the two agree.
\<close>

definition has_LParen :: "RPNs \<Rightarrow> bool" where
  "has_LParen stack = (LPAREN_p \<in> set stack)"

fun RParen_loop :: "RPNs \<Rightarrow> RPNs \<Rightarrow> error + RPNs \<times> RPNs" where
  "RParen_loop rpn [] = Inl (undefined_behaviour ''back of an empty vector'')"
| "RParen_loop rpn (poped # stack) =
     (if type poped = LParen then Inr (rpn, stack)
      else RParen_loop (rpn @ [poped]) stack)"

definition case_of_RParen :: "RPNs \<Rightarrow> RPNs \<Rightarrow> error + bool \<times> RPNs \<times> RPNs" where
  "case_of_RParen rpn stack =
     (if \<not> has_LParen stack then Inr (False, rpn, stack)
      else
        (case RParen_loop rpn stack of
           Inl e \<Rightarrow> Inl e
         | Inr (rpn1, stack1) \<Rightarrow>
             if stack1 = [] then Inr (True, rpn1, stack1)
             else
               (let token_before_RParen = hd stack1 in
                if func token_before_RParen \<noteq> None
                then Inr (True, rpn1 @ [token_before_RParen], tl stack1)
                else Inr (True, rpn1, stack1))))"

fun Comma_loop :: "RPNs \<Rightarrow> RPNs \<Rightarrow> error + RPNs \<times> RPNs" where
  "Comma_loop rpn [] = Inl (undefined_behaviour ''back of an empty vector'')"
| "Comma_loop rpn (t # stack) =
     (if t \<noteq> LPAREN_p then Comma_loop (rpn @ [t]) stack
      else Inr (rpn, t # stack))"

definition case_of_Comma :: "RPNs \<Rightarrow> RPNs \<Rightarrow> error + bool \<times> RPNs \<times> RPNs" where
  "case_of_Comma rpn stack =
     (if \<not> has_LParen stack then Inr (False, rpn, stack)
      else
        (case Comma_loop rpn stack of
           Inl e \<Rightarrow> Inl e
         | Inr (rpn1, stack1) \<Rightarrow> Inr (True, rpn1, stack1)))"

text \<open>
  The \<^verbatim>\<open>while\<close> loop of \<^verbatim>\<open>case_of_Operator\<close>. The two maps behind
  \<^verbatim>\<open>ret_preced\<close> and \<^verbatim>\<open>is_left_assoc\<close> are read with \<^verbatim>\<open>at\<close>, which raises
  \<^verbatim>\<open>std::out_of_range\<close> for a string that is not one of the five operators.
\<close>

fun Operator_loop :: "Token \<Rightarrow> RPNs \<Rightarrow> RPNs \<Rightarrow> error + RPNs \<times> RPNs" where
  "Operator_loop token rpn [] = Inr (rpn, [])"
| "Operator_loop token rpn (poped # stack) =
     (if type poped \<noteq> Operator then Inr (rpn, poped # stack)
      else
        (case ret_preced (str token) of
           Inl e \<Rightarrow> Inl e
         | Inr preced_t \<Rightarrow>
             (case ret_preced (str poped) of
                Inl e \<Rightarrow> Inl e
              | Inr preced_p \<Rightarrow>
                  (case is_left_assoc (str token) of
                     Inl e \<Rightarrow> Inl e
                   | Inr left \<Rightarrow>
                       if (if left then preced_t > preced_p else preced_t \<ge> preced_p)
                       then Inr (rpn, poped # stack)
                       else Operator_loop token (rpn @ [poped]) stack))))"

definition case_of_Operator ::
  "Registry \<Rightarrow> RPNs \<Rightarrow> RPNs \<Rightarrow> Token \<Rightarrow> bool \<Rightarrow> error + RPNs \<times> RPNs" where
  "case_of_Operator R rpn stack token is_prev_token_operator =
     (if is_prev_token_operator \<and> str token = ''+'' then Inr (rpn, stack)
      else if is_prev_token_operator \<and> str token = ''-'' then
        bind_err (Token_of R ''-1'') (\<lambda>minus_one.
        bind_err (Token_of R ''*'') (\<lambda>times.
        bind_err (Operator_loop times (rpn @ [minus_one]) stack) (\<lambda>(rpn1, stack1).
        Inr (rpn1, times # stack1))))
      else
        bind_err (Operator_loop token rpn stack) (\<lambda>(rpn1, stack1).
        Inr (rpn1, token # stack1)))"

definition BAD_RPNs :: RPNs where
  "BAD_RPNs = []"

text \<open>
  The first loop of \<^verbatim>\<open>make_rpn\<close>, over the tokens. \<open>None\<close> is the early
  \<^verbatim>\<open>return BAD_RPNs\<close>; otherwise the loop ends with the output and the stack.
\<close>

fun token_loop ::
  "Registry \<Rightarrow> Tokens \<Rightarrow> RPNs \<Rightarrow> RPNs \<Rightarrow> bool \<Rightarrow> error + (RPNs \<times> RPNs) option" where
  "token_loop R [] rpn stack is_prev_token_operator = Inr (Some (rpn, stack))"
| "token_loop R (token # tokens) rpn stack is_prev_token_operator =
     (case type token of
        Variable \<Rightarrow> token_loop R tokens (rpn @ [token]) stack False
      | Constant \<Rightarrow> token_loop R tokens (rpn @ [token]) stack False
      | Real \<Rightarrow> token_loop R tokens (rpn @ [token]) stack False
      | Imaginary \<Rightarrow> token_loop R tokens (rpn @ [token]) stack False
      | Func1 \<Rightarrow> token_loop R tokens rpn (token # stack) False
      | Func2 \<Rightarrow> token_loop R tokens rpn (token # stack) False
      | Func3 \<Rightarrow> token_loop R tokens rpn (token # stack) False
      | LParen \<Rightarrow> token_loop R tokens rpn (token # stack) True
      | RParen \<Rightarrow>
          (case case_of_RParen rpn stack of
             Inl e \<Rightarrow> Inl e
           | Inr (retval, rpn1, stack1) \<Rightarrow>
               if retval \<noteq> True then Inr None
               else token_loop R tokens rpn1 stack1 False)
      | Comma \<Rightarrow>
          (case case_of_Comma rpn stack of
             Inl e \<Rightarrow> Inl e
           | Inr (retval, rpn1, stack1) \<Rightarrow>
               if retval \<noteq> True then Inr None
               else token_loop R tokens rpn1 stack1 False)
      | Operator \<Rightarrow>
          (case case_of_Operator R rpn stack token is_prev_token_operator of
             Inl e \<Rightarrow> Inl e
           | Inr (rpn1, stack1) \<Rightarrow> token_loop R tokens rpn1 stack1 True))"

text \<open>The second loop: the operators left on the stack go to the output.\<close>

fun remaining_loop :: "RPNs \<Rightarrow> RPNs \<Rightarrow> RPNs" where
  "remaining_loop rpn [] = rpn"
| "remaining_loop rpn (t # stack) =
     (if has_LParen (t # stack) then BAD_RPNs
      else remaining_loop (rpn @ [t]) stack)"

definition make_rpn :: "Registry \<Rightarrow> string \<Rightarrow> error + RPNs" where
  "make_rpn R formula =
     bind_err (devide_to_tokens R formula) (\<lambda>tokens.
     bind_err (token_loop R tokens [] [] True) (\<lambda>r.
       case r of
         None \<Rightarrow> Inr BAD_RPNs
       | Some (rpn, stack) \<Rightarrow> Inr (remaining_loop rpn stack)))"

subsection \<open>Variable tables\<close>

type_synonym VariableTable = "string \<rightharpoonup> Type"

definition contains :: "VariableTable \<Rightarrow> string \<Rightarrow> bool" where
  "contains variables s = (s \<in> dom variables)"

definition table_at :: "VariableTable \<Rightarrow> string \<Rightarrow> error + Type" where
  "table_at variables s = (case variables s of None \<Rightarrow> Inl out_of_range | Some v \<Rightarrow> Inr v)"

text \<open>\<^verbatim>\<open>operator+=\<close> stores the pair, replacing the value of a name already there.\<close>

definition plus_assign :: "VariableTable \<Rightarrow> string \<times> Type \<Rightarrow> VariableTable" where
  "plus_assign variables pair = variables(fst pair \<mapsto> snd pair)"

subsection \<open>The compiler\<close>

text \<open>
  The value stack is a \<^verbatim>\<open>std::deque\<close> that grows at its back; it is kept top first as
  well, so \<^verbatim>\<open>stack.front()\<close> is the last element of the list.
\<close>

type_synonym Stack = "Type list"

text \<open>
  \<^verbatim>\<open>compile_RPN\<close> appends one of three closures for a token, each capturing the token:
  the closure of a variable, of a constant or literal, and of an operator or function.
\<close>

datatype CompiledFunc =
    push_variable Token
  | push_value Token
  | apply_func Token

type_synonym CompiledRPN = "CompiledFunc list"

type_synonym VariableList = "string set"

text \<open>
  The loop \<^verbatim>\<open>for (int n = arg_num - 1; n >= 0; --n)\<close> that fills \<^verbatim>\<open>args\<close> from the
  back of the stack; the first argument counts the iterations left.
\<close>

fun pop_args :: "nat \<Rightarrow> Type list \<Rightarrow> Stack \<Rightarrow> error + Type list \<times> Stack" where
  "pop_args 0 args stack = Inr (args, stack)"
| "pop_args (Suc n) args [] = Inl (undefined_behaviour ''back of an empty deque'')"
| "pop_args (Suc n) args (v # stack) = pop_args n (args[n := v]) stack"

text \<open>
  Running one closure. \<^verbatim>\<open>std::vector<Type> args(token.arg_num)\<close> converts the
  \<^verbatim>\<open>int\<close> to a size, so a negative arity raises \<^verbatim>\<open>std::length_error\<close>.
\<close>

fun call :: "CompiledFunc \<Rightarrow> Stack \<Rightarrow> VariableTable \<Rightarrow> error + Stack" where
  "call (push_variable token) stack table' =
     bind_err (table_at table' (str token)) (\<lambda>v. Inr (v # stack))"
| "call (push_value token) stack table' = Inr (val token # stack)"
| "call (apply_func token) stack table' =
     (if arg_num token < 0 then Inl length_error
      else
        bind_err (pop_args (nat (arg_num token)) (replicate (nat (arg_num token)) 0) stack)
          (\<lambda>(args, stack1).
             case func token of
               None \<Rightarrow> Inl (undefined_behaviour ''call through a null function pointer'')
             | Some f \<Rightarrow> bind_err (f args) (\<lambda>r. Inr (r # stack1))))"

text \<open>
  The loop of \<^verbatim>\<open>compile_RPN\<close>. \<^verbatim>\<open>var_list\<close> is an output parameter, written in
  place: the result carries its content when the function returns or throws. The
  counter \<^verbatim>\<open>var_cnt\<close> is an \<^verbatim>\<open>int\<close>; it stays between minus the largest arity and
  the number of tokens, and is modelled without wrap-around.
\<close>

fun compile_loop ::
  "RPNs \<Rightarrow> int \<Rightarrow> CompiledRPN \<Rightarrow> VariableList \<Rightarrow> (error + CompiledRPN) \<times> VariableList" where
  "compile_loop [] var_cnt crpn' var_list =
     (if var_cnt \<noteq> 1 then
        (Inl (invalid_argument ''Invalid formula: some functions have too many arguments''),
         var_list)
      else (Inr crpn', var_list))"
| "compile_loop (token # rpn) var_cnt crpn' var_list =
     (case type token of
        Variable \<Rightarrow>
          compile_loop rpn (var_cnt + 1) (crpn' @ [push_variable token])
            (insert (str token) var_list)
      | Constant \<Rightarrow> compile_loop rpn (var_cnt + 1) (crpn' @ [push_value token]) var_list
      | Real \<Rightarrow> compile_loop rpn (var_cnt + 1) (crpn' @ [push_value token]) var_list
      | Imaginary \<Rightarrow> compile_loop rpn (var_cnt + 1) (crpn' @ [push_value token]) var_list
      | LParen \<Rightarrow> compile_loop rpn (var_cnt + 1) crpn' var_list
      | RParen \<Rightarrow> compile_loop rpn (var_cnt + 1) crpn' var_list
      | Comma \<Rightarrow> compile_loop rpn (var_cnt + 1) crpn' var_list
      | _ \<Rightarrow>
          if var_cnt - arg_num token < 0 then
            (Inl (invalid_argument
                    (''Invalid formula: missing number of argument for '' @ str token)),
             var_list)
          else
            compile_loop rpn (var_cnt - arg_num token + 1) (crpn' @ [apply_func token])
              var_list)"

definition compile_RPN :: "RPNs \<Rightarrow> VariableList \<Rightarrow> (error + CompiledRPN) \<times> VariableList" where
  "compile_RPN rpn var_list = compile_loop rpn 0 [] {}"

subsection \<open>The class \<^verbatim>\<open>Syamfp\<close>\<close>

record Syamfp =
  formula :: string
  table :: VariableTable
  vars :: VariableList
  crpn :: CompiledRPN

definition Syamfp_default :: Syamfp where
  "Syamfp_default = \<lparr>formula = [], table = Map.empty, vars = {}, crpn = []\<rparr>"

definition Syamfp_init :: "string \<Rightarrow> VariableTable \<Rightarrow> Syamfp" where
  "Syamfp_init formula' table' = \<lparr>formula = formula', table = table', vars = {}, crpn = []\<rparr>"

definition EINVAL :: int where
  "EINVAL = 22"

text \<open>
  \<^verbatim>\<open>parse\<close> returns an \<^verbatim>\<open>int\<close> and changes the object; the model returns both. An
  exception that leaves \<^verbatim>\<open>make_rpn\<close> is not caught. \<^verbatim>\<open>compile_RPN\<close> is given the
  member \<^verbatim>\<open>vars\<close> by reference; the result is assigned to the members
  \<^verbatim>\<open>crpn\<close> and \<^verbatim>\<open>formula\<close> only when it returns.
\<close>

definition parse :: "Registry \<Rightarrow> Syamfp \<Rightarrow> string \<Rightarrow> (error + int) \<times> Syamfp" where
  "parse R this formula' =
     (case make_rpn R formula' of
        Inl e \<Rightarrow> (Inl e, this)
      | Inr rpn \<Rightarrow>
          if rpn = BAD_RPNs then (Inr (- EINVAL), this)
          else
            (case compile_RPN rpn (vars this) of
               (Inr crpn', var_list) \<Rightarrow>
                 (Inr 0, this\<lparr>vars := var_list, crpn := crpn', formula := formula'\<rparr>)
             | (Inl e, var_list) \<Rightarrow> (Inr (- EINVAL), this\<lparr>vars := var_list\<rparr>)))"

definition parse_with_table ::
  "Registry \<Rightarrow> Syamfp \<Rightarrow> string \<Rightarrow> VariableTable \<Rightarrow> (error + int) \<times> Syamfp" where
  "parse_with_table R this formula' table' = parse R (this\<lparr>table := table'\<rparr>) formula'"

definition regist :: "Syamfp \<Rightarrow> VariableTable \<Rightarrow> Syamfp" where
  "regist this table' = this\<lparr>table := table'\<rparr>"

text \<open>The loop of the closure that \<^verbatim>\<open>ret_func\<close> returns, over the compiled closures.\<close>

fun run_CRPN :: "CompiledRPN \<Rightarrow> Stack \<Rightarrow> VariableTable \<Rightarrow> error + Stack" where
  "run_CRPN [] stack table' = Inr stack"
| "run_CRPN (f # fs) stack table' =
     (case call f stack table' of
        Inl e \<Rightarrow> Inl e
      | Inr stack1 \<Rightarrow> run_CRPN fs stack1 table')"

text \<open>\<^verbatim>\<open>stack.front()\<close>: undefined behaviour on an empty deque.\<close>

definition front :: "Stack \<Rightarrow> error + Type" where
  "front stack =
     (if stack = [] then Inl (undefined_behaviour ''front of an empty deque'')
      else Inr (last stack))"

definition ret_func_closure ::
  "VariableTable \<Rightarrow> CompiledRPN \<Rightarrow> string \<Rightarrow> Type \<Rightarrow> error + Type" where
  "ret_func_closure Table CRPN variable_string value' =
     bind_err (run_CRPN CRPN [] (plus_assign Table (variable_string, value'))) front"

definition ret_func :: "Syamfp \<Rightarrow> string \<Rightarrow> error + (Type \<Rightarrow> error + Type)" where
  "ret_func this variable_string =
     (if \<exists>s \<in> vars this. \<not> contains (table this) s \<and> s \<noteq> variable_string then
        Inl (runtime_error ''Invalid function: some variable are not determined'')
      else Inr (ret_func_closure (table this) (crpn this) variable_string))"

subsection \<open>Registering a function\<close>

text \<open>\<^verbatim>\<open>std::unordered_map::insert\<close> adds the pair when the key is not in the map.\<close>

definition add_custom_function ::
  "Registry \<Rightarrow> string \<Rightarrow> TokenType \<Rightarrow> int \<Rightarrow> Func \<Rightarrow> Registry" where
  "add_custom_function R name type' arg_num' lambda =
     (case R name of
        Some existing \<Rightarrow> R
      | None \<Rightarrow> R(name \<mapsto> mk_Token name type' arg_num' (of_real 0) lambda))"

section \<open>The compiler and the registry in the words of the specification\<close>

text \<open>
  The specification describes the compiler by a depth counter over the postfix sequence.
  These definitions follow its words, not the code; the theorems below compare
  \<open>compile_RPN\<close> with them.
\<close>

definition is_operand :: "Token \<Rightarrow> bool" where
  "is_operand t = (type t = Variable \<or> type t = Constant \<or> type t = Real \<or> type t = Imaginary)"

definition is_applied :: "Token \<Rightarrow> bool" where
  "is_applied t = (type t = Operator \<or> type t = Func1 \<or> type t = Func2 \<or> type t = Func3)"

text \<open>
  The counter: an operand adds 1; an operator or function first takes its arity away,
  fails with the name of the symbol when the depth becomes negative, and then adds 1.
\<close>

fun spec_depth :: "int \<Rightarrow> RPNs \<Rightarrow> string + int" where
  "spec_depth depth [] = Inr depth"
| "spec_depth depth (t # rpn) =
     (if is_operand t then spec_depth (depth + 1) rpn
      else if depth - arg_num t < 0 then Inl (str t)
      else spec_depth (depth - arg_num t + 1) rpn)"

text \<open>
  The operation a token contributes: push the value bound to a variable, push a
  literal value, or pop the arguments, apply and push.
\<close>

definition spec_operation :: "Token \<Rightarrow> CompiledFunc" where
  "spec_operation t =
     (if type t = Variable then push_variable t
      else if is_operand t then push_value t
      else apply_func t)"

definition spec_free_variables :: "RPNs \<Rightarrow> string set" where
  "spec_free_variables rpn = str ` {t \<in> set rpn. type t = Variable}"

text \<open>
  A token whose behaviour can be applied: the arity is not negative, the function
  pointer is not null, and the function returns a value on every argument vector of
  that length.
\<close>

definition applicable :: "Token \<Rightarrow> bool" where
  "applicable t =
     (0 \<le> arg_num t \<and>
      (\<exists>f. func t = Some f \<and>
         (\<forall>args. length args = nat (arg_num t) \<longrightarrow> (\<exists>v. f args = Inr v))))"

text \<open>
  The registries the specification allows: the built-in entries, and under other names
  functions of the three function categories.
\<close>

definition extends_RESERVED :: "Registry \<Rightarrow> bool" where
  "extends_RESERVED R =
     (\<forall>s. case RESERVED_TOKEN s of
            Some t \<Rightarrow> R s = Some t
          | None \<Rightarrow>
              (case R s of
                 None \<Rightarrow> True
               | Some t \<Rightarrow>
                   (type t = Func1 \<or> type t = Func2 \<or> type t = Func3) \<and> applicable t))"

text \<open>
  The tokens of a postfix sequence: operands, and operators and functions that can be
  applied. On the operator stack of the converter there are operators and functions that
  can be applied, and left parentheses.
\<close>

definition postfix_token :: "Token \<Rightarrow> bool" where
  "postfix_token t = (is_operand t \<or> (is_applied t \<and> applicable t))"

definition stack_token :: "Token \<Rightarrow> bool" where
  "stack_token t = ((is_applied t \<and> applicable t) \<or> t = LPAREN_p)"

definition input_token :: "Token \<Rightarrow> bool" where
  "input_token t =
     (is_operand t \<or> (is_applied t \<and> applicable t) \<or> t = LPAREN_p \<or>
      type t = RParen \<or> type t = Comma)"

text \<open>The variables a compiled plan reads: the names its push-variable closures captured.\<close>

fun referenced :: "CompiledFunc \<Rightarrow> string set" where
  "referenced (push_variable t) = {str t}"
| "referenced (push_value t) = {}"
| "referenced (apply_func t) = {}"

definition referenced_variables :: "CompiledRPN \<Rightarrow> string set" where
  "referenced_variables ops = (\<Union>f \<in> set ops. referenced f)"

section \<open>Properties\<close>

subsection \<open>Rules for running the model on a concrete formula\<close>

lemmas tokenizer_defs =
  devide_to_tokens_def is_operator_def isspace_def RESERVED_TOKEN_def RESERVED_LIST_def
  Token_of_def mk_Token_def is_real_def is_imaginary_def opt_sign_def opt_fraction_def
  opt_exponent_def is_digit_def is_sign_def from_chars_def in_double_range_def
  digits_value_def bind_err_def Let_def

lemmas converter_defs =
  make_rpn_def case_of_Operator_def case_of_RParen_def case_of_Comma_def has_LParen_def
  LPAREN_p_def ret_preced_def is_left_assoc_def BAD_RPNs_def

lemmas evaluator_defs =
  parse_def compile_RPN_def ret_func_def ret_func_closure_def Syamfp_default_def
  Syamfp_init_def regist_def EINVAL_def front_def plus_assign_def contains_def table_at_def
  lambda1_def lambda2_def arg_def eval_nat_numeral

lemma std_log_of_real: "0 < r \<Longrightarrow> std_log (of_real r) = of_real (ln r)"
proof -
  assume r: "0 < r"
  have "sgn (complex_of_real r) = cis 0"
    using r by (simp add: sgn_div_norm of_real_def)
  then have "Arg (complex_of_real r) = 0"
    by (rule cis_Arg_unique) simp_all
  then show ?thesis
    using r by (simp add: std_log_def complex_eq_iff)
qed

lemma std_pow_of_real_nat: "0 < r \<Longrightarrow> std_pow (of_real r) (of_nat n) = of_real (r ^ n)"
proof -
  assume r: "0 < r"
  have "exp (of_nat n * complex_of_real (ln r)) = exp (complex_of_real (ln r)) ^ n"
    by (rule exp_of_nat_mult)
  also have "\<dots> = of_real (r ^ n)"
    using r by (simp add: exp_of_real)
  finally show ?thesis
    using r by (simp add: std_pow_def std_log_of_real)
qed

lemma std_pow_numeral: "std_pow (numeral a) (numeral b) = numeral a ^ numeral b"
  using std_pow_of_real_nat [of "numeral a" "numeral b"] by simp

subsection \<open>Precedence and associativity\<close>

lemma operator_tables:
  "is_left_assoc ''+'' = Inr True \<and> ret_preced ''+'' = Inr 0 \<and>
   is_left_assoc ''-'' = Inr True \<and> ret_preced ''-'' = Inr 0 \<and>
   is_left_assoc ''*'' = Inr True \<and> ret_preced ''*'' = Inr 1 \<and>
   is_left_assoc ''/'' = Inr True \<and> ret_preced ''/'' = Inr 1 \<and>
   is_left_assoc ''^'' = Inr False \<and> ret_preced ''^'' = Inr 2"
  by (simp add: is_left_assoc_def ret_preced_def)

lemma rpn_power_tower:
  "map_sum id (map str) (make_rpn RESERVED_TOKEN ''2 ^ 3 ^ 2'') =
     Inr [''2'', ''3'', ''2'', ''^'', ''^'']"
  by (simp add: tokenizer_defs converter_defs)

text \<open>
  The value of \<^verbatim>\<open>2 ^ 3 ^ 2\<close> is the power function of the \<^verbatim>\<open>^\<close> entry applied from the
  right, \<^verbatim>\<open>pow(2, pow(3, 2))\<close>, for every name of the free variable and every value given
  to it. The proof does not look into \<open>std_pow\<close>.
\<close>

lemma value_power_tower:
  "(case parse RESERVED_TOKEN Syamfp_default ''2 ^ 3 ^ 2'' of
      (r, h) \<Rightarrow>
        r = Inr 0 \<and> bind_err (ret_func h x) (\<lambda>f. f v) = Inr (std_pow 2 (std_pow 3 2)))"
  by (simp add: tokenizer_defs converter_defs evaluator_defs)

text \<open>
  With the exact power of the model the right grouping is 512 and the left grouping is
  64. The program computes \<^verbatim>\<open>std::pow\<close> on \<^verbatim>\<open>std::complex<double>\<close> in floating point,
  which rounds; that rounding is not modelled, so the number the program returns for
  this formula is not a theorem here.
\<close>

lemma exact_power_tower:
  "std_pow 2 (std_pow 3 2) = 512 \<and> std_pow (std_pow 2 3) 2 = 64"
  by (simp add: std_pow_numeral)

subsection \<open>The example \<^verbatim>\<open>3 + 4 * 2\<close>\<close>

lemma tokens_3_4_2:
  "map_sum id (map str) (devide_to_tokens RESERVED_TOKEN ''3 + 4 * 2'') =
     Inr [''3'', ''+'', ''4'', ''*'', ''2'']"
  by (simp add: tokenizer_defs)

lemma rpn_3_4_2:
  "map_sum id (map str) (make_rpn RESERVED_TOKEN ''3 + 4 * 2'') =
     Inr [''3'', ''4'', ''2'', ''*'', ''+'']"
  by (simp add: tokenizer_defs converter_defs)

lemma value_3_4_2:
  "(case parse RESERVED_TOKEN Syamfp_default ''3 + 4 * 2'' of
      (r, h) \<Rightarrow> r = Inr 0 \<and> bind_err (ret_func h x) (\<lambda>f. f v) = Inr 11)"
  by (simp add: tokenizer_defs converter_defs evaluator_defs)

text \<open>
  C8. The formula \<^verbatim>\<open>3 + 4 * 2\<close> is divided into the tokens \<^verbatim>\<open>3 + 4 * 2\<close>, the
  postfix conversion gives the order \<^verbatim>\<open>3 4 2 * +\<close>, and the compiled plan evaluates
  to 11 (for every name of the free variable and every value given to it).
\<close>

theorem C8_three_plus_four_times_two:
  "map_sum id (map str) (devide_to_tokens RESERVED_TOKEN ''3 + 4 * 2'') =
     Inr [''3'', ''+'', ''4'', ''*'', ''2''] \<and>
   map_sum id (map str) (make_rpn RESERVED_TOKEN ''3 + 4 * 2'') =
     Inr [''3'', ''4'', ''2'', ''*'', ''+''] \<and>
   (case parse RESERVED_TOKEN Syamfp_default ''3 + 4 * 2'' of
      (r, h) \<Rightarrow> r = Inr 0 \<and> bind_err (ret_func h x) (\<lambda>f. f v) = Inr 11)"
  using tokens_3_4_2 rpn_3_4_2 value_3_4_2 [of x v] by (intro conjI)

subsection \<open>The token below a left parenthesis\<close>

lemma RParen_on_operator:
  "bind_err (Token_of RESERVED_TOKEN ''+'') (\<lambda>plus.
     map_sum id (\<lambda>(retval, rpn, stack). (retval, map str rpn, map str stack))
       (case_of_RParen [] [LPAREN_p, plus])) = Inr (True, [''+''], [])"
  by (simp add: tokenizer_defs converter_defs)

lemma rpn_1_2_3:
  "map_sum id (map str) (make_rpn RESERVED_TOKEN ''1 + (2) * 3'') =
     Inr [''1'', ''2'', ''+'', ''3'', ''*'']"
  by (simp add: tokenizer_defs converter_defs)

lemma value_1_2_3:
  "(case parse RESERVED_TOKEN Syamfp_default ''1 + (2) * 3'' of
      (r, h) \<Rightarrow> r = Inr 0 \<and> bind_err (ret_func h x) (\<lambda>f. f v) = Inr 9)"
  by (simp add: tokenizer_defs converter_defs evaluator_defs)

text \<open>
  C2. The claim is that, after the left parenthesis is popped, only a function on top of
  the stack is emitted, and an operator stays there to compete with what follows. The
  code tests \<^verbatim>\<open>func != nullptr\<close>, which holds for operators as well: with \<^verbatim>\<open>+\<close>
  below the parenthesis, \<^verbatim>\<open>case_of_RParen\<close> emits the \<^verbatim>\<open>+\<close> and empties the stack.
  So \<^verbatim>\<open>1 + (2) * 3\<close> becomes \<^verbatim>\<open>1 2 + 3 *\<close> and evaluates to 9, where the
  precedence of \<^verbatim>\<open>*\<close> over \<^verbatim>\<open>+\<close> gives \<^verbatim>\<open>1 2 3 * +\<close> and 7.
\<close>

theorem C2_operator_below_paren_is_emitted:
  "bind_err (Token_of RESERVED_TOKEN ''+'') (\<lambda>plus.
     map_sum id (\<lambda>(retval, rpn, stack). (retval, map str rpn, map str stack))
       (case_of_RParen [] [LPAREN_p, plus])) = Inr (True, [''+''], []) \<and>
   map_sum id (map str) (make_rpn RESERVED_TOKEN ''1 + (2) * 3'') =
     Inr [''1'', ''2'', ''+'', ''3'', ''*''] \<and>
   (case parse RESERVED_TOKEN Syamfp_default ''1 + (2) * 3'' of
      (r, h) \<Rightarrow> r = Inr 0 \<and> bind_err (ret_func h x) (\<lambda>f. f v) = Inr 9)"
  using RParen_on_operator rpn_1_2_3 value_1_2_3 [of x v] by (intro conjI)

subsection \<open>A parse that fails\<close>

text \<open>What a failed parse does keep: the formula, the compiled plan and the table.\<close>

lemma parse_failure_keeps:
  assumes "parse R this formula' = (r, this')" and "r \<noteq> Inr 0"
  shows "formula this' = formula this \<and> crpn this' = crpn this \<and> table this' = table this"
  using assms
  by (auto simp: parse_def split: sum.splits if_splits prod.splits)

text \<open>A formula that the converter rejects leaves the whole object as it was.\<close>

lemma parse_bad_rpn_keeps_all:
  assumes "make_rpn R formula' = Inr BAD_RPNs"
  shows "parse R this formula' = (Inr (- EINVAL), this)"
  using assms by (simp add: parse_def)

lemma parse_x_plus_y:
  "(case parse RESERVED_TOKEN (Syamfp_init [] [''y'' \<mapsto> 1]) ''x + y'' of
      (r1, h1) \<Rightarrow>
        r1 = Inr 0 \<and> vars h1 = {''x'', ''y''} \<and>
        bind_err (ret_func h1 ''x'') (\<lambda>f. f 2) = Inr 3 \<and>
        (case parse RESERVED_TOKEN h1 ''z +'' of
           (r2, h2) \<Rightarrow>
             r2 = Inr (- EINVAL) \<and> formula h2 = formula h1 \<and> crpn h2 = crpn h1 \<and>
             vars h2 = {''z''} \<and> vars h2 \<noteq> vars h1 \<and>
             ret_func h2 ''x'' =
               Inl (runtime_error ''Invalid function: some variable are not determined'')))"
  by (simp add: tokenizer_defs converter_defs evaluator_defs insert_commute)

text \<open>
  C3. The claim is that a failed parse leaves the compiled plan, the formula and the set
  of free variables as they were, so that the previous plan stays callable. The code
  keeps the plan and the formula, but \<^verbatim>\<open>compile_RPN\<close> clears and refills the member
  \<^verbatim>\<open>vars\<close> before it throws. After \<^verbatim>\<open>x + y\<close> is parsed with \<^verbatim>\<open>y\<close> bound,
  \<^verbatim>\<open>ret_func("x")\<close> gives a function that maps 2 to 3; the parse of \<^verbatim>\<open>z +\<close> then
  fails with \<^verbatim>\<open>-EINVAL\<close> and leaves \<^verbatim>\<open>vars = {z}\<close>, and \<^verbatim>\<open>ret_func("x")\<close> on the
  unchanged plan now raises the unbound-variable error.
\<close>

theorem C3_failed_parse_overwrites_vars:
  "(case parse RESERVED_TOKEN (Syamfp_init [] [''y'' \<mapsto> 1]) ''x + y'' of
      (r1, h1) \<Rightarrow>
        r1 = Inr 0 \<and> vars h1 = {''x'', ''y''} \<and>
        bind_err (ret_func h1 ''x'') (\<lambda>f. f 2) = Inr 3 \<and>
        (case parse RESERVED_TOKEN h1 ''z +'' of
           (r2, h2) \<Rightarrow>
             r2 = Inr (- EINVAL) \<and> formula h2 = formula h1 \<and> crpn h2 = crpn h1 \<and>
             vars h2 = {''z''} \<and> vars h2 \<noteq> vars h1 \<and>
             ret_func h2 ''x'' =
               Inl (runtime_error ''Invalid function: some variable are not determined'')))"
  by (rule parse_x_plus_y)

subsection \<open>Registration\<close>

text \<open>
  C5, as the claim states it, fails: registering \<^verbatim>\<open>sin\<close> as a two-argument function
  leaves the lookup of \<^verbatim>\<open>sin\<close> at the built-in entry, not at the new one.
\<close>

theorem C5_counterexample:
  "add_custom_function RESERVED_TOKEN ''sin'' Func2 2 (Some (lambda2 std_pow)) ''sin''
     \<noteq> Some (mk_Token ''sin'' Func2 2 0 (Some (lambda2 std_pow)))"
  by (simp add: add_custom_function_def RESERVED_TOKEN_def RESERVED_LIST_def mk_Token_def)

text \<open>
  C5, amended. Registering never fails. When the name is not in the registry, a lookup
  of it afterwards gives the new entry: the name, the given type, arity and function,
  and the value 0. When the name is already there, built-in or not, the registry is not
  changed. No other name is affected.
\<close>

theorem C5_registration_inserts_if_absent:
  "(R name = None \<longrightarrow>
      add_custom_function R name type' arg_num' lambda name =
        Some (mk_Token name type' arg_num' 0 lambda)) \<and>
   (R name \<noteq> None \<longrightarrow> add_custom_function R name type' arg_num' lambda = R) \<and>
   (\<forall>other. other \<noteq> name \<longrightarrow>
      add_custom_function R name type' arg_num' lambda other = R other)"
  by (auto simp: add_custom_function_def split: option.splits)

theorem C5_registration_witness:
  "RESERVED_TOKEN ''sq'' = None \<and>
   add_custom_function RESERVED_TOKEN ''sq'' Func1 1 (Some (lambda1 (\<lambda>a. a * a))) ''sq'' =
     Some (mk_Token ''sq'' Func1 1 0 (Some (lambda1 (\<lambda>a. a * a)))) \<and>
   RESERVED_TOKEN ''sin'' \<noteq> None \<and>
   add_custom_function RESERVED_TOKEN ''sin'' Func2 2 (Some (lambda2 std_pow)) =
     RESERVED_TOKEN \<and>
   add_custom_function RESERVED_TOKEN ''sq'' Func1 1 (Some (lambda1 (\<lambda>a. a * a))) ''sin'' =
     RESERVED_TOKEN ''sin''"
proof -
  have absent: "RESERVED_TOKEN ''sq'' = None"
    by (simp add: RESERVED_TOKEN_def RESERVED_LIST_def)
  have present: "RESERVED_TOKEN ''sin'' \<noteq> None"
    by (simp add: RESERVED_TOKEN_def RESERVED_LIST_def)
  have other: "''sin'' \<noteq> ''sq''"
    by simp
  note new = C5_registration_inserts_if_absent
    [of RESERVED_TOKEN "''sq''" Func1 1 "Some (lambda1 (\<lambda>a. a * a))"]
  note old = C5_registration_inserts_if_absent
    [of RESERVED_TOKEN "''sin''" Func2 2 "Some (lambda2 std_pow)"]
  from new absent
  have 1: "add_custom_function RESERVED_TOKEN ''sq'' Func1 1 (Some (lambda1 (\<lambda>a. a * a))) ''sq''
             = Some (mk_Token ''sq'' Func1 1 0 (Some (lambda1 (\<lambda>a. a * a))))"
    by (elim conjE) (erule mp)
  from old present
  have 2: "add_custom_function RESERVED_TOKEN ''sin'' Func2 2 (Some (lambda2 std_pow))
             = RESERVED_TOKEN"
    by (elim conjE) (erule mp)
  from new other
  have 3: "add_custom_function RESERVED_TOKEN ''sq'' Func1 1 (Some (lambda1 (\<lambda>a. a * a))) ''sin''
             = RESERVED_TOKEN ''sin''"
    by (elim conjE) (erule allE, erule mp)
  from absent present 1 2 3 show ?thesis
    by (intro conjI)
qed

subsection \<open>The single-argument evaluator\<close>

text \<open>
  What \<open>ret_func\<close> tests is the member \<open>vars\<close>: it raises the error exactly when some
  name in \<open>vars\<close> is neither in the stored table nor the designated name, and otherwise
  returns the function that runs the stored plan on the stored table with the
  designated name bound to the argument.
\<close>

lemma ret_func_checks_vars:
  "(ret_func this x = Inl (runtime_error ''Invalid function: some variable are not determined'')
      \<longleftrightarrow> (\<exists>s. s \<in> vars this \<and> s \<notin> dom (table this) \<and> s \<noteq> x)) \<and>
   ((\<exists>e. ret_func this x = Inl e)
      \<longleftrightarrow> (\<exists>s. s \<in> vars this \<and> s \<notin> dom (table this) \<and> s \<noteq> x)) \<and>
   ((\<exists>f. ret_func this x = Inr f \<and>
         (\<forall>v. f v = bind_err (run_CRPN (crpn this) [] ((table this)(x \<mapsto> v))) front))
      \<longleftrightarrow> \<not> (\<exists>s. s \<in> vars this \<and> s \<notin> dom (table this) \<and> s \<noteq> x))"
  by (auto simp: ret_func_def ret_func_closure_def contains_def plus_assign_def)

lemma stale_vars_throw:
  "(case parse RESERVED_TOKEN (Syamfp_init [] [''y'' \<mapsto> 1]) ''x + y'' of
      (r1, h1) \<Rightarrow>
        r1 = Inr 0 \<and>
        (case parse RESERVED_TOKEN h1 ''z +'' of
           (r2, h2) \<Rightarrow>
             r2 = Inr (- EINVAL) \<and>
             referenced_variables (crpn h2) = {''x'', ''y''} \<and>
             dom (table h2) = {''y''} \<and>
             ret_func h2 ''x'' =
               Inl (runtime_error ''Invalid function: some variable are not determined'')))"
  by (simp add: tokenizer_defs converter_defs evaluator_defs referenced_variables_def
      insert_commute)

lemma stale_vars_pass:
  "(case parse RESERVED_TOKEN Syamfp_default ''x + y'' of
      (r1, h1) \<Rightarrow>
        r1 = Inr 0 \<and>
        (case parse RESERVED_TOKEN h1 ''1 +'' of
           (r2, h2) \<Rightarrow>
             r2 = Inr (- EINVAL) \<and>
             referenced_variables (crpn h2) = {''x'', ''y''} \<and>
             dom (table h2) = {} \<and>
             ret_func h2 ''x'' = Inr (ret_func_closure (table h2) (crpn h2) ''x'') \<and>
             ret_func_closure (table h2) (crpn h2) ''x'' 2 = Inl out_of_range))"
  by (simp add: tokenizer_defs converter_defs evaluator_defs referenced_variables_def
      insert_commute)

text \<open>
  C9. The claim is that \<open>ret_func\<close> raises the unbound-variable error exactly when a
  variable of the compiled formula is neither in the stored table nor the designated
  name. The code tests the member \<open>vars\<close>, which a failed compile has overwritten
  while the plan stayed. After \<^verbatim>\<open>x + y\<close> is parsed with \<^verbatim>\<open>y\<close> bound and the parse of
  \<^verbatim>\<open>z +\<close> fails, the plan reads \<^verbatim>\<open>x\<close> and \<^verbatim>\<open>y\<close>, both covered, and
  \<^verbatim>\<open>ret_func("x")\<close> raises the error. After \<^verbatim>\<open>x + y\<close> is parsed with nothing bound and
  the parse of \<^verbatim>\<open>1 +\<close> fails, the plan reads \<^verbatim>\<open>y\<close>, which is not covered, and
  \<^verbatim>\<open>ret_func("x")\<close> returns a function, whose call then raises
  \<^verbatim>\<open>std::out_of_range\<close>.
\<close>

theorem C9_ret_func_tests_stale_vars:
  "(case parse RESERVED_TOKEN (Syamfp_init [] [''y'' \<mapsto> 1]) ''x + y'' of
      (r1, h1) \<Rightarrow>
        r1 = Inr 0 \<and>
        (case parse RESERVED_TOKEN h1 ''z +'' of
           (r2, h2) \<Rightarrow>
             r2 = Inr (- EINVAL) \<and>
             referenced_variables (crpn h2) = {''x'', ''y''} \<and>
             dom (table h2) = {''y''} \<and>
             ret_func h2 ''x'' =
               Inl (runtime_error ''Invalid function: some variable are not determined''))) \<and>
   (case parse RESERVED_TOKEN Syamfp_default ''x + y'' of
      (r1, h1) \<Rightarrow>
        r1 = Inr 0 \<and>
        (case parse RESERVED_TOKEN h1 ''1 +'' of
           (r2, h2) \<Rightarrow>
             r2 = Inr (- EINVAL) \<and>
             referenced_variables (crpn h2) = {''x'', ''y''} \<and>
             dom (table h2) = {} \<and>
             ret_func h2 ''x'' = Inr (ret_func_closure (table h2) (crpn h2) ''x'') \<and>
             ret_func_closure (table h2) (crpn h2) ''x'' 2 = Inl out_of_range))"
  by (rule conjI [OF stale_vars_throw stale_vars_pass])

subsection \<open>An object that was never parsed\<close>

text \<open>
  On a default-constructed object, and on one constructed from a formula and a table,
  the set of free variables and the plan are empty, so \<open>ret_func\<close> succeeds for
  every name; the function it returns runs no operation and then reads the front of the
  empty stack, which is undefined behaviour, not a reported error.
\<close>

lemma ret_func_on_fresh_object:
  "vars Syamfp_default = {} \<and> crpn Syamfp_default = [] \<and>
   ret_func Syamfp_default x = Inr (ret_func_closure Map.empty [] x) \<and>
   ret_func_closure Map.empty [] x v = Inl (undefined_behaviour ''front of an empty deque'') \<and>
   vars (Syamfp_init f t) = {} \<and> crpn (Syamfp_init f t) = [] \<and>
   ret_func (Syamfp_init f t) x = Inr (ret_func_closure t [] x) \<and>
   ret_func_closure t [] x v = Inl (undefined_behaviour ''front of an empty deque'')"
  by (simp add: ret_func_def ret_func_closure_def Syamfp_default_def Syamfp_init_def
      front_def bind_err_def)

text \<open>A parse that the converter rejects leaves such an object as it was.\<close>

lemma rejected_closing_paren:
  "parse RESERVED_TOKEN Syamfp_default ''1 + 2)'' = (Inr (- EINVAL), Syamfp_default)"
  by (simp add: tokenizer_defs converter_defs evaluator_defs)

lemma failed_compile_on_fresh_object:
  "(case parse RESERVED_TOKEN Syamfp_default ''z +'' of
      (r, h) \<Rightarrow>
        r = Inr (- EINVAL) \<and> crpn h = [] \<and> vars h = {''z''} \<and>
        ret_func h ''x'' =
          Inl (runtime_error ''Invalid function: some variable are not determined'') \<and>
        ret_func h ''z'' = Inr (ret_func_closure (table h) [] ''z'') \<and>
        ret_func_closure (table h) [] ''z'' 2 =
          Inl (undefined_behaviour ''front of an empty deque''))"
  by (simp add: tokenizer_defs converter_defs evaluator_defs)

text \<open>
  C10. The claim is that on an object on which no parse has ever succeeded the check of
  \<open>ret_func\<close> passes because the set of free variables is empty, and the function
  returned reads the front of an empty stack. That holds until a compile fails: the
  failed parse of \<^verbatim>\<open>z +\<close> on a default-constructed object returns \<^verbatim>\<open>-EINVAL\<close> and leaves
  the plan empty but \<open>vars = {z}\<close>, so \<^verbatim>\<open>ret_func("x")\<close> raises the unbound-variable
  error; only with \<^verbatim>\<open>z\<close> as the designated name does it return the function that
  reads the empty stack.
\<close>

theorem C10_failed_compile_fills_vars:
  "(case parse RESERVED_TOKEN Syamfp_default ''z +'' of
      (r, h) \<Rightarrow>
        r = Inr (- EINVAL) \<and> crpn h = [] \<and> vars h = {''z''} \<and>
        ret_func h ''x'' =
          Inl (runtime_error ''Invalid function: some variable are not determined'') \<and>
        ret_func h ''z'' = Inr (ret_func_closure (table h) [] ''z'') \<and>
        ret_func_closure (table h) [] ''z'' 2 =
          Inl (undefined_behaviour ''front of an empty deque''))"
  by (rule failed_compile_on_fresh_object)

subsection \<open>Unary signs\<close>

lemma Token_of_minus_one:
  "Token_of RESERVED_TOKEN ''-1'' = Inr (mk_Token ''-1'' Real 0 (- 1) None)"
  by (simp add: tokenizer_defs)

lemma Token_of_times:
  "Token_of RESERVED_TOKEN ''*'' =
     Inr (mk_Token ''*'' Operator 2 0 (Some (lambda2 (\<lambda>a b. a * b))))"
  by (simp add: tokenizer_defs)

lemma case_of_Operator_plus:
  assumes "str sp = ''+''"
  shows "case_of_Operator R rpn stack sp True = Inr (rpn, stack)"
  using assms by (simp add: case_of_Operator_def)

lemma case_of_Operator_minus:
  assumes "str sm = ''-''"
  shows "case_of_Operator RESERVED_TOKEN rpn stack sm True =
         case_of_Operator RESERVED_TOKEN (rpn @ [mk_Token ''-1'' Real 0 (- 1) None]) stack
           (mk_Token ''*'' Operator 2 0 (Some (lambda2 (\<lambda>a b. a * b)))) False"
  using assms
  by (simp add: case_of_Operator_def Token_of_minus_one Token_of_times bind_err_def
      mk_Token_def)

lemma type_literal_minus_one: "type (mk_Token ''-1'' Real 0 (- 1) None) = Real"
  by (simp add: mk_Token_def)

lemma type_times: "type (mk_Token ''*'' Operator 2 0 f) = Operator"
  by (simp add: mk_Token_def)

lemma unary_plus_is_dropped:
  assumes "type sp = Operator" and "str sp = ''+''"
  shows "token_loop R (sp # ts) rpn stack True = token_loop R ts rpn stack True"
  using assms by (simp add: case_of_Operator_plus)

lemma unary_minus_is_minus_one_times:
  assumes "type sm = Operator" and "str sm = ''-''"
  shows "token_loop RESERVED_TOKEN (sm # ts) rpn stack True =
         token_loop RESERVED_TOKEN
           (mk_Token ''-1'' Real 0 (- 1) None #
            mk_Token ''*'' Operator 2 0 (Some (lambda2 (\<lambda>a b. a * b))) # ts) rpn stack True"
  using assms
  by (simp add: case_of_Operator_minus type_literal_minus_one type_times)

lemma after_LParen_plus:
  assumes "type lparen = LParen" and "type sp = Operator" and "str sp = ''+''"
  shows "token_loop R (lparen # sp # ts) rpn stack b = token_loop R (lparen # ts) rpn stack b"
  using assms by (simp add: case_of_Operator_plus)

lemma after_Operator_plus:
  assumes "type ot = Operator" and "type sp = Operator" and "str sp = ''+''"
  shows "token_loop R (ot # sp # ts) rpn stack b = token_loop R (ot # ts) rpn stack b"
  using assms by (simp add: case_of_Operator_plus split: sum.splits)

lemma after_LParen_minus:
  assumes "type lparen = LParen" and "type sm = Operator" and "str sm = ''-''"
  shows "token_loop RESERVED_TOKEN (lparen # sm # ts) rpn stack b =
         token_loop RESERVED_TOKEN
           (lparen # mk_Token ''-1'' Real 0 (- 1) None #
            mk_Token ''*'' Operator 2 0 (Some (lambda2 (\<lambda>a b. a * b))) # ts) rpn stack b"
  using assms
  by (simp add: case_of_Operator_minus type_literal_minus_one type_times)

lemma after_Operator_minus:
  assumes "type ot = Operator" and "type sm = Operator" and "str sm = ''-''"
  shows "token_loop RESERVED_TOKEN (ot # sm # ts) rpn stack b =
         token_loop RESERVED_TOKEN
           (ot # mk_Token ''-1'' Real 0 (- 1) None #
            mk_Token ''*'' Operator 2 0 (Some (lambda2 (\<lambda>a b. a * b))) # ts) rpn stack b"
  using assms
  by (simp add: case_of_Operator_minus type_literal_minus_one type_times split: sum.splits)

lemma rpn_minus_3_plus_5:
  "map_sum id (map str) (make_rpn RESERVED_TOKEN ''-3 + 5'') =
     Inr [''-1'', ''3'', ''*'', ''5'', ''+'']"
  by (simp add: tokenizer_defs converter_defs)

lemma value_minus_3_plus_5:
  "(case parse RESERVED_TOKEN Syamfp_default ''-3 + 5'' of
      (r, h) \<Rightarrow> r = Inr 0 \<and> bind_err (ret_func h x) (\<lambda>f. f v) = Inr 2)"
  by (simp add: tokenizer_defs converter_defs evaluator_defs)

lemma rpn_minus_sin_0:
  "map_sum id (map str) (make_rpn RESERVED_TOKEN ''-sin(0)'') =
     Inr [''-1'', ''0'', ''sin'', ''*'']"
  by (simp add: tokenizer_defs converter_defs)

lemma value_minus_sin_0:
  "(case parse RESERVED_TOKEN Syamfp_default ''-sin(0)'' of
      (r, h) \<Rightarrow> r = Inr 0 \<and> bind_err (ret_func h x) (\<lambda>f. f v) = Inr 0)"
  by (simp add: tokenizer_defs converter_defs evaluator_defs)

lemma rpn_pow_2_minus_3:
  "map_sum id (map str) (make_rpn RESERVED_TOKEN ''pow(2,-3)'') =
     Inr [''2'', ''3'', ''-'', ''pow'']"
  by (simp add: tokenizer_defs converter_defs)

lemma parse_pow_2_minus_3:
  "fst (parse RESERVED_TOKEN Syamfp_default ''pow(2,-3)'') = Inr (- EINVAL)"
  by (simp add: tokenizer_defs converter_defs evaluator_defs)

text \<open>
  In the three contexts where the flag is set (a sign that comes first, that follows a
  left parenthesis, or that follows another operator) a \<^verbatim>\<open>+\<close> is dropped: the
  conversion goes on as if the token were not in the input; a \<^verbatim>\<open>-\<close> is converted as
  the literal \<^verbatim>\<open>-1\<close> followed by the binary operator \<^verbatim>\<open>*\<close>. The formula
  \<^verbatim>\<open>-3 + 5\<close> becomes \<^verbatim>\<open>-1 3 * 5 +\<close> and evaluates to 2, and \<^verbatim>\<open>-sin(0)\<close> becomes
  \<^verbatim>\<open>-1 0 sin *\<close> and evaluates to 0.
\<close>

lemma unary_sign_rewriting:
  assumes "type sp = Operator" and "str sp = ''+''"
    and "type sm = Operator" and "str sm = ''-''"
    and "type lparen = LParen" and "type ot = Operator"
  shows
  "token_loop RESERVED_TOKEN (sp # ts) rpn stack True =
     token_loop RESERVED_TOKEN ts rpn stack True \<and>
   token_loop RESERVED_TOKEN (lparen # sp # ts) rpn stack b =
     token_loop RESERVED_TOKEN (lparen # ts) rpn stack b \<and>
   token_loop RESERVED_TOKEN (ot # sp # ts) rpn stack b =
     token_loop RESERVED_TOKEN (ot # ts) rpn stack b \<and>
   token_loop RESERVED_TOKEN (sm # ts) rpn stack True =
     token_loop RESERVED_TOKEN
       (mk_Token ''-1'' Real 0 (- 1) None #
        mk_Token ''*'' Operator 2 0 (Some (lambda2 (\<lambda>a b. a * b))) # ts) rpn stack True \<and>
   token_loop RESERVED_TOKEN (lparen # sm # ts) rpn stack b =
     token_loop RESERVED_TOKEN
       (lparen # mk_Token ''-1'' Real 0 (- 1) None #
        mk_Token ''*'' Operator 2 0 (Some (lambda2 (\<lambda>a b. a * b))) # ts) rpn stack b \<and>
   token_loop RESERVED_TOKEN (ot # sm # ts) rpn stack b =
     token_loop RESERVED_TOKEN
       (ot # mk_Token ''-1'' Real 0 (- 1) None #
        mk_Token ''*'' Operator 2 0 (Some (lambda2 (\<lambda>a b. a * b))) # ts) rpn stack b \<and>
   map_sum id (map str) (make_rpn RESERVED_TOKEN ''-3 + 5'') =
     Inr [''-1'', ''3'', ''*'', ''5'', ''+''] \<and>
   (case parse RESERVED_TOKEN Syamfp_default ''-3 + 5'' of
      (r, h) \<Rightarrow> r = Inr 0 \<and> bind_err (ret_func h x) (\<lambda>f. f v) = Inr 2) \<and>
   map_sum id (map str) (make_rpn RESERVED_TOKEN ''-sin(0)'') =
     Inr [''-1'', ''0'', ''sin'', ''*''] \<and>
   (case parse RESERVED_TOKEN Syamfp_default ''-sin(0)'' of
      (r, h) \<Rightarrow> r = Inr 0 \<and> bind_err (ret_func h x) (\<lambda>f. f v) = Inr 0)"
  using assms
  by (intro conjI unary_plus_is_dropped after_LParen_plus after_Operator_plus
      unary_minus_is_minus_one_times after_LParen_minus after_Operator_minus
      rpn_minus_3_plus_5 value_minus_3_plus_5 rpn_minus_sin_0 value_minus_sin_0)

text \<open>A sign in the first argument of a call, right after the parenthesis, is rewritten.\<close>

lemma rpn_pow_minus_2_3:
  "map_sum id (map str) (make_rpn RESERVED_TOKEN ''pow(-2,3)'') =
     Inr [''-1'', ''2'', ''*'', ''3'', ''pow'']"
  by (simp add: tokenizer_defs converter_defs)

lemma parse_pow_minus_2_3:
  "fst (parse RESERVED_TOKEN Syamfp_default ''pow(-2,3)'') = Inr 0"
  by (simp add: tokenizer_defs converter_defs evaluator_defs)

text \<open>
  C4. The claim is that the rewriting is applied after a comma as it is at the start,
  after a left parenthesis and after an operator. The \<^verbatim>\<open>LParen\<close> case of
  \<^verbatim>\<open>make_rpn\<close> sets \<^verbatim>\<open>is_prev_token_operator = true\<close>, but the \<^verbatim>\<open>Comma\<close> case sets
  it to false, as the \<^verbatim>\<open>RParen\<close> case does. So the sign of the first argument is
  rewritten, \<^verbatim>\<open>pow(-2,3)\<close> becomes \<^verbatim>\<open>-1 2 * 3 pow\<close> and is parsed, while the sign of the
  second argument is taken for a binary operator: \<^verbatim>\<open>pow(2,-3)\<close> becomes
  \<^verbatim>\<open>2 3 - pow\<close>, not \<^verbatim>\<open>2 -1 3 * pow\<close>, and the parse fails with \<^verbatim>\<open>-EINVAL\<close>.
\<close>

theorem C4_sign_after_comma_is_binary:
  "map_sum id (map str) (make_rpn RESERVED_TOKEN ''pow(2,-3)'') =
     Inr [''2'', ''3'', ''-'', ''pow''] \<and>
   map_sum id (map str) (make_rpn RESERVED_TOKEN ''pow(2,-3)'') \<noteq>
     Inr [''2'', ''-1'', ''3'', ''*'', ''pow''] \<and>
   fst (parse RESERVED_TOKEN Syamfp_default ''pow(2,-3)'') = Inr (- EINVAL) \<and>
   map_sum id (map str) (make_rpn RESERVED_TOKEN ''pow(-2,3)'') =
     Inr [''-1'', ''2'', ''*'', ''3'', ''pow''] \<and>
   fst (parse RESERVED_TOKEN Syamfp_default ''pow(-2,3)'') = Inr 0"
proof -
  have "map_sum id (map str) (make_rpn RESERVED_TOKEN ''pow(2,-3)'') \<noteq>
          Inr [''2'', ''-1'', ''3'', ''*'', ''pow'']"
    by (simp add: rpn_pow_2_minus_3)
  then show ?thesis
    by (rule conjI [OF rpn_pow_2_minus_3 conjI [OF _ conjI [OF parse_pow_2_minus_3
          conjI [OF rpn_pow_minus_2_3 parse_pow_minus_2_3]]]])
qed

subsection \<open>The compiler and the depth counter\<close>

text \<open>
  The loop of \<open>compile_RPN\<close> against the counter of the specification, from any depth
  and with any closures and names collected so far.
\<close>

lemma compile_loop_refines:
  assumes "\<forall>t \<in> set rpn. is_operand t \<or> is_applied t"
  shows "fst (compile_loop rpn d ops vl) =
           (case spec_depth d rpn of
              Inl symbol \<Rightarrow>
                Inl (invalid_argument
                       (''Invalid formula: missing number of argument for '' @ symbol))
            | Inr depth \<Rightarrow>
                if depth = 1 then Inr (ops @ map spec_operation rpn)
                else Inl (invalid_argument
                            ''Invalid formula: some functions have too many arguments''))"
  using assms
proof (induction rpn arbitrary: d ops vl)
  case Nil
  then show ?case by simp
next
  case (Cons t rpn)
  then show ?case
    by (cases "type t")
       (simp_all add: is_operand_def is_applied_def spec_operation_def split: sum.splits)
qed

lemma compile_loop_variables:
  assumes "\<forall>t \<in> set rpn. is_operand t \<or> is_applied t"
    and "spec_depth d rpn = Inr d'"
  shows "snd (compile_loop rpn d ops vl) = vl \<union> spec_free_variables rpn"
  using assms
proof (induction rpn arbitrary: d ops vl)
  case Nil
  then show ?case by (simp add: spec_free_variables_def)
next
  case (Cons t rpn)
  then show ?case
    by (cases "type t")
       (auto simp: is_operand_def is_applied_def spec_free_variables_def split: if_splits)
qed

lemma rpn_pow_1:
  "bind_err (make_rpn RESERVED_TOKEN ''pow(1)'') (\<lambda>rpn. fst (compile_RPN rpn {})) =
     Inl (invalid_argument ''Invalid formula: missing number of argument for pow'')"
  by (simp add: tokenizer_defs converter_defs compile_RPN_def)

lemma parse_pow_1:
  "fst (parse RESERVED_TOKEN Syamfp_default ''pow(1)'') = Inr (- EINVAL)"
  by (simp add: tokenizer_defs converter_defs evaluator_defs)

text \<open>
  C6. On a postfix sequence of operands, operators and functions, \<open>compile_RPN\<close>
  does what the depth counter from 0 says: it fails with the missing-argument error
  that names the symbol at the first operator or function whose arity exceeds the
  depth, it fails with the too-many-arguments error when the final depth is not 1, and
  otherwise it returns one operation per token, so it succeeds exactly when the counter
  ends at 1; the names of the variables are then the free-variable set. The formula
  \<^verbatim>\<open>pow(1)\<close> is rejected by the compiler with the missing-argument error for
  \<^verbatim>\<open>pow\<close>, and \<open>parse\<close> returns \<^verbatim>\<open>-EINVAL\<close>.
\<close>

theorem C6_compile_RPN_depth_counter:
  assumes "\<forall>t \<in> set rpn. is_operand t \<or> is_applied t"
  shows
  "fst (compile_RPN rpn var_list) =
     (case spec_depth 0 rpn of
        Inl symbol \<Rightarrow>
          Inl (invalid_argument
                 (''Invalid formula: missing number of argument for '' @ symbol))
      | Inr depth \<Rightarrow>
          if depth = 1 then Inr (map spec_operation rpn)
          else Inl (invalid_argument
                      ''Invalid formula: some functions have too many arguments'')) \<and>
   ((\<exists>ops. fst (compile_RPN rpn var_list) = Inr ops) \<longleftrightarrow> spec_depth 0 rpn = Inr 1) \<and>
   (spec_depth 0 rpn = Inr 1 \<longrightarrow>
      snd (compile_RPN rpn var_list) = spec_free_variables rpn) \<and>
   bind_err (make_rpn RESERVED_TOKEN ''pow(1)'') (\<lambda>rpn. fst (compile_RPN rpn {})) =
     Inl (invalid_argument ''Invalid formula: missing number of argument for pow'') \<and>
   fst (parse RESERVED_TOKEN Syamfp_default ''pow(1)'') = Inr (- EINVAL)"
proof -
  have refines:
    "fst (compile_RPN rpn var_list) =
       (case spec_depth 0 rpn of
          Inl symbol \<Rightarrow>
            Inl (invalid_argument
                   (''Invalid formula: missing number of argument for '' @ symbol))
        | Inr depth \<Rightarrow>
            if depth = 1 then Inr (map spec_operation rpn)
            else Inl (invalid_argument
                        ''Invalid formula: some functions have too many arguments''))"
    using compile_loop_refines [OF assms, of 0 "[]" "{}"]
    by (simp add: compile_RPN_def split: sum.splits)
  have succeeds:
    "(\<exists>ops. fst (compile_RPN rpn var_list) = Inr ops) \<longleftrightarrow> spec_depth 0 rpn = Inr 1"
    unfolding refines by (auto split: sum.splits)
  have variables:
    "spec_depth 0 rpn = Inr 1 \<longrightarrow>
       snd (compile_RPN rpn var_list) = spec_free_variables rpn"
    using compile_loop_variables [OF assms, of 0 1 "[]" "{}"]
    by (simp add: compile_RPN_def)
  show ?thesis
    by (rule conjI [OF refines conjI [OF succeeds conjI [OF variables
          conjI [OF rpn_pow_1 parse_pow_1]]]])
qed

text \<open>
  The theorem at the postfix sequence \<^verbatim>\<open>1 pow\<close> of the formula \<^verbatim>\<open>pow(1)\<close>, which is
  rejected, and at the single variable \<^verbatim>\<open>x\<close>, which is compiled.
\<close>

theorem C6_compile_RPN_witness:
  "((is_operand (mk_Token ''1'' Real 0 1 None) \<or> is_applied (mk_Token ''1'' Real 0 1 None)) \<and>
    (is_operand (mk_Token ''pow'' Func2 2 0 (Some (lambda2 std_pow))) \<or>
     is_applied (mk_Token ''pow'' Func2 2 0 (Some (lambda2 std_pow))))) \<and>
   fst (compile_RPN
          [mk_Token ''1'' Real 0 1 None, mk_Token ''pow'' Func2 2 0 (Some (lambda2 std_pow))]
          {}) =
     Inl (invalid_argument ''Invalid formula: missing number of argument for pow'') \<and>
   (is_operand (mk_Token ''x'' Variable 0 0 None) \<or>
    is_applied (mk_Token ''x'' Variable 0 0 None)) \<and>
   fst (compile_RPN [mk_Token ''x'' Variable 0 0 None] {}) =
     Inr [push_variable (mk_Token ''x'' Variable 0 0 None)] \<and>
   snd (compile_RPN [mk_Token ''x'' Variable 0 0 None] {}) = {''x''}"
proof -
  let ?one = "mk_Token ''1'' Real 0 1 None"
  let ?pow = "mk_Token ''pow'' Func2 2 0 (Some (lambda2 std_pow))"
  let ?x = "mk_Token ''x'' Variable 0 0 None"
  have one: "is_operand ?one \<or> is_applied ?one"
    by (simp add: is_operand_def mk_Token_def)
  have pow: "is_operand ?pow \<or> is_applied ?pow"
    by (simp add: is_applied_def mk_Token_def)
  have x: "is_operand ?x \<or> is_applied ?x"
    by (simp add: is_operand_def mk_Token_def)
  from one pow have hyp1: "\<forall>t \<in> set [?one, ?pow]. is_operand t \<or> is_applied t"
    by simp
  from x have hyp2: "\<forall>t \<in> set [?x]. is_operand t \<or> is_applied t"
    by simp
  have depth1: "spec_depth 0 [?one, ?pow] = Inl ''pow''"
    by (simp add: is_operand_def mk_Token_def)
  have depth2: "spec_depth 0 [?x] = Inr 1"
    by (simp add: is_operand_def mk_Token_def)
  have r1: "fst (compile_RPN [?one, ?pow] {}) =
              Inl (invalid_argument ''Invalid formula: missing number of argument for pow'')"
    using C6_compile_RPN_depth_counter [OF hyp1, of "{}"] depth1 by simp
  have r2: "fst (compile_RPN [?x] {}) = Inr [push_variable ?x]"
    using C6_compile_RPN_depth_counter [OF hyp2, of "{}"] depth2
    by (simp add: spec_operation_def mk_Token_def)
  have r3: "snd (compile_RPN [?x] {}) = {''x''}"
    using C6_compile_RPN_depth_counter [OF hyp2, of "{}"] depth2
    by (auto simp: spec_free_variables_def mk_Token_def)
  show ?thesis
    by (rule conjI [OF conjI [OF one pow] conjI [OF r1 conjI [OF x conjI [OF r2 r3]]]])
qed

subsection \<open>Running a compiled plan\<close>

text \<open>Popping the arguments succeeds when the stack holds at least that many values.\<close>

lemma pop_args_enough:
  "n \<le> length stack \<Longrightarrow>
     \<exists>args'. pop_args n args stack = Inr (args', drop n stack) \<and> length args' = length args"
proof (induction n arbitrary: args stack)
  case 0
  then show ?case by simp
next
  case (Suc n)
  then obtain v st where "stack = v # st"
    by (cases stack) auto
  moreover from Suc.prems this have "n \<le> length st"
    by simp
  from Suc.IH [OF this, of "args[n := v]"]
  have "\<exists>args'. pop_args n (args[n := v]) st = Inr (args', drop n st) \<and>
          length args' = length args"
    by simp
  ultimately show ?case
    by simp
qed

lemma call_apply_func:
  assumes "applicable t" and "nat (arg_num t) \<le> length stack"
  shows "\<exists>v. call (apply_func t) stack tbl = Inr (v # drop (nat (arg_num t)) stack)"
proof -
  from assms(1) obtain f where
    nonneg: "0 \<le> arg_num t" and f: "func t = Some f" and
    total: "\<And>args. length args = nat (arg_num t) \<Longrightarrow> \<exists>v. f args = Inr v"
    by (auto simp: applicable_def)
  from pop_args_enough [OF assms(2), of "replicate (nat (arg_num t)) 0"]
  obtain args' where
    pop: "pop_args (nat (arg_num t)) (replicate (nat (arg_num t)) 0) stack =
            Inr (args', drop (nat (arg_num t)) stack)" and
    len: "length args' = nat (arg_num t)"
    by auto
  from total [OF len] obtain v where "f args' = Inr v"
    by blast
  with nonneg f pop show ?thesis
    by (simp add: bind_err_def)
qed

lemma run_postfix:
  assumes "\<forall>t \<in> set rpn. postfix_token t"
    and "spec_depth (int (length stack)) rpn = Inr d'"
    and "spec_free_variables rpn \<subseteq> dom tbl"
  shows "\<exists>stack'. run_CRPN (map spec_operation rpn) stack tbl = Inr stack' \<and>
           int (length stack') = d'"
  using assms
proof (induction rpn arbitrary: stack)
  case Nil
  then show ?case by simp
next
  case (Cons t rpn)
  have vars: "spec_free_variables rpn \<subseteq> dom tbl"
    using Cons.prems(3) by (auto simp: spec_free_variables_def)
  have rest: "\<forall>t \<in> set rpn. postfix_token t"
    using Cons.prems(1) by simp
  show ?case
  proof (cases "is_operand t")
    case True
    from Cons.prems(2) True
    have depth: "spec_depth (int (length stack) + 1) rpn = Inr d'"
      by simp
    obtain v where step: "call (spec_operation t) stack tbl = Inr (v # stack)"
    proof (cases "type t = Variable")
      case var: True
      then have "str t \<in> dom tbl"
        using Cons.prems(3) by (auto simp: spec_free_variables_def)
      then obtain w where "tbl (str t) = Some w"
        by auto
      with var have "call (spec_operation t) stack tbl = Inr (w # stack)"
        by (simp add: spec_operation_def table_at_def bind_err_def)
      then show ?thesis by (rule that)
    next
      case False
      with True have "call (spec_operation t) stack tbl = Inr (val t # stack)"
        by (simp add: spec_operation_def)
      then show ?thesis by (rule that)
    qed
    from depth have "spec_depth (int (length (v # stack))) rpn = Inr d'"
      by (simp add: add.commute)
    from Cons.IH [OF rest this vars] step show ?thesis
      by simp
  next
    case False
    with Cons.prems(1) have app: "applicable t" and applied: "is_applied t"
      by (auto simp: postfix_token_def)
    from Cons.prems(2) False
    have enough: "\<not> int (length stack) - arg_num t < 0"
      and depth: "spec_depth (int (length stack) - arg_num t + 1) rpn = Inr d'"
      by (auto split: if_splits)
    from app have nonneg: "0 \<le> arg_num t"
      by (simp add: applicable_def)
    with enough have le: "nat (arg_num t) \<le> length stack"
      by linarith
    from call_apply_func [OF app le, of tbl] obtain v where
      step: "call (apply_func t) stack tbl = Inr (v # drop (nat (arg_num t)) stack)"
      by blast
    from False applied have op: "spec_operation t = apply_func t"
      by (auto simp: spec_operation_def is_operand_def is_applied_def)
    from nonneg le
    have "int (length (v # drop (nat (arg_num t)) stack)) = int (length stack) - arg_num t + 1"
      by simp
    with depth
    have "spec_depth (int (length (v # drop (nat (arg_num t)) stack))) rpn = Inr d'"
      by (simp only:)
    from Cons.IH [OF rest this vars] step op show ?thesis
      by simp
  qed
qed

subsection \<open>The tokens that reach the compiler\<close>

text \<open>
  Every entry of the built-in registry, and so every token built from a registry that
  extends it, is an operand, an operator or function that can be applied, the left
  parenthesis, a right parenthesis or a comma.
\<close>

lemma mk_Token_sel:
  "str (mk_Token s ty n v f) = s" "type (mk_Token s ty n v f) = ty"
  "arg_num (mk_Token s ty n v f) = n" "val (mk_Token s ty n v f) = v"
  "func (mk_Token s ty n v f) = f"
  by (simp_all add: mk_Token_def)

lemma applicable_lambda1: "applicable (mk_Token s ty 1 v (Some (lambda1 f)))"
  by (simp add: applicable_def mk_Token_def lambda1_def arg_def bind_err_def)

lemma applicable_lambda2: "applicable (mk_Token s ty 2 v (Some (lambda2 f)))"
  by (simp add: applicable_def mk_Token_def lambda2_def arg_def bind_err_def)

lemma applicable_cong:
  "arg_num t = arg_num p \<Longrightarrow> func t = func p \<Longrightarrow> applicable t = applicable p"
  by (simp add: applicable_def)

lemma RESERVED_entries:
  assumes "RESERVED_TOKEN s = Some p"
  shows "input_token (mk_Token s (type p) (arg_num p) (val p) (func p))"
  using assms
  unfolding RESERVED_TOKEN_def RESERVED_LIST_def
  by (auto simp: input_token_def is_operand_def is_applied_def LPAREN_p_def mk_Token_sel
      applicable_lambda1 applicable_lambda2 split: if_splits)

lemma extends_RESERVED_builtin:
  "extends_RESERVED R \<Longrightarrow> RESERVED_TOKEN s = Some p \<Longrightarrow> R s = Some p"
  by (auto simp: extends_RESERVED_def split: option.splits dest: spec [of _ s])

lemma extends_RESERVED_custom:
  "extends_RESERVED R \<Longrightarrow> RESERVED_TOKEN s = None \<Longrightarrow> R s = Some p \<Longrightarrow>
     is_applied p \<and> applicable p"
  by (auto simp: extends_RESERVED_def is_applied_def split: option.splits dest: spec [of _ s])

lemma Token_of_registered:
  assumes "extends_RESERVED R" and "R s = Some p"
  shows "input_token (mk_Token s (type p) (arg_num p) (val p) (func p))"
proof (cases "RESERVED_TOKEN s")
  case None
  from extends_RESERVED_custom [OF assms(1) None assms(2)]
  have "is_applied p" and "applicable p"
    by simp_all
  then show ?thesis
    by (simp add: input_token_def is_applied_def mk_Token_sel
        applicable_cong [of "mk_Token s (type p) (arg_num p) (val p) (func p)" p])
next
  case (Some q)
  with extends_RESERVED_builtin [OF assms(1) Some] assms(2) have "q = p"
    by simp
  with Some RESERVED_entries [of s p] show ?thesis
    by simp
qed

lemma Token_of_input_token:
  assumes "extends_RESERVED R" and "Token_of R s = Inr t"
  shows "input_token t"
proof (cases "R s")
  case (Some p)
  with assms(2) have "t = mk_Token s (type p) (arg_num p) (val p) (func p)"
    by (simp add: Token_of_def)
  with Token_of_registered [OF assms(1) Some] show ?thesis
    by simp
next
  case None
  with assms(2) have "is_operand t"
    by (auto simp: Token_of_def is_operand_def mk_Token_def
        split: if_splits option.splits)
  then show ?thesis
    by (simp add: input_token_def)
qed

lemma Token_of_minus_one_postfix:
  assumes "extends_RESERVED R" and "Token_of R ''-1'' = Inr t"
  shows "postfix_token t"
proof (cases "R ''-1''")
  case None
  with assms(2) have "is_operand t"
    by (auto simp: Token_of_def is_operand_def mk_Token_def
        split: if_splits option.splits)
  then show ?thesis
    by (simp add: postfix_token_def)
next
  case (Some p)
  have "RESERVED_TOKEN ''-1'' = None"
    by (simp add: RESERVED_TOKEN_def RESERVED_LIST_def)
  from extends_RESERVED_custom [OF assms(1) this Some]
  have "is_applied p" and "applicable p"
    by simp_all
  moreover from Some assms(2)
  have "t = mk_Token ''-1'' (type p) (arg_num p) (val p) (func p)"
    by (simp add: Token_of_def)
  ultimately show ?thesis
    by (simp add: postfix_token_def is_applied_def mk_Token_sel
        applicable_cong [of "mk_Token ''-1'' (type p) (arg_num p) (val p) (func p)" p])
qed

lemma Token_of_times_stack:
  assumes "extends_RESERVED R" and "Token_of R ''*'' = Inr t"
  shows "stack_token t"
proof -
  have "RESERVED_TOKEN ''*'' =
          Some (mk_Token ''*'' Operator 2 0 (Some (lambda2 (\<lambda>a b. a * b))))"
    by (simp add: RESERVED_TOKEN_def RESERVED_LIST_def)
  from extends_RESERVED_builtin [OF assms(1) this] assms(2)
  have "t = mk_Token ''*'' Operator 2 0 (Some (lambda2 (\<lambda>a b. a * b)))"
    by (simp add: Token_of_def mk_Token_sel)
  then show ?thesis
    by (simp add: stack_token_def is_applied_def mk_Token_sel applicable_lambda2)
qed

lemma devide_loop_input_tokens:
  assumes R: "extends_RESERVED R"
  shows "devide_loop R tokens s cs = Inr out \<Longrightarrow> \<forall>t \<in> set tokens. input_token t \<Longrightarrow>
           \<forall>t \<in> set out. input_token t"
proof (induction cs arbitrary: tokens s)
  case Nil
  show ?case
  proof (cases "s = []")
    case True
    with Nil show ?thesis by simp
  next
    case False
    with Nil.prems(1) obtain t where "Token_of R s = Inr t" and "out = tokens @ [t]"
      by (auto split: sum.splits)
    with Token_of_input_token [OF R] Nil.prems(2) show ?thesis
      by simp
  qed
next
  case (Cons c cs)
  from Cons.prems(1) consider
      (flush_space) t where "Token_of R s = Inr t"
        and "devide_loop R (tokens @ [t]) [] cs = Inr out"
    | (skip) "devide_loop R tokens s cs = Inr out"
    | (start) "devide_loop R tokens [c] cs = Inr out"
    | (grow) "devide_loop R tokens (s @ [c]) cs = Inr out"
    | (flush) t where "Token_of R s = Inr t"
        and "devide_loop R (tokens @ [t]) [c] cs = Inr out"
    by (simp split: if_splits sum.splits)
  then show ?case
  proof cases
    case flush_space
    from Token_of_input_token [OF R flush_space(1)] Cons.prems(2)
    have "\<forall>x \<in> set (tokens @ [t]). input_token x"
      by simp
    from Cons.IH [OF flush_space(2) this] show ?thesis .
  next
    case skip
    from Cons.IH [OF skip Cons.prems(2)] show ?thesis .
  next
    case start
    from Cons.IH [OF start Cons.prems(2)] show ?thesis .
  next
    case grow
    from Cons.IH [OF grow Cons.prems(2)] show ?thesis .
  next
    case flush
    from Token_of_input_token [OF R flush(1)] Cons.prems(2)
    have "\<forall>x \<in> set (tokens @ [t]). input_token x"
      by simp
    from Cons.IH [OF flush(2) this] show ?thesis .
  qed
qed

text \<open>
  The loops of the converter keep operands and applicable operators and functions in
  the output, and applicable operators and functions and left parentheses on the stack.
\<close>

lemma stack_token_not_LParen:
  "stack_token t \<Longrightarrow> type t \<noteq> LParen \<Longrightarrow> postfix_token t"
  by (auto simp: stack_token_def postfix_token_def LPAREN_p_def mk_Token_def)

lemma stack_token_not_LPAREN_p:
  "stack_token t \<Longrightarrow> t \<noteq> LPAREN_p \<Longrightarrow> postfix_token t"
  by (auto simp: stack_token_def postfix_token_def)

lemma stack_token_func:
  "stack_token t \<Longrightarrow> func t \<noteq> None \<Longrightarrow> postfix_token t"
  by (auto simp: stack_token_def postfix_token_def LPAREN_p_def mk_Token_def)

lemma input_token_operand:
  "input_token t \<Longrightarrow>
     type t = Variable \<or> type t = Constant \<or> type t = Real \<or> type t = Imaginary \<Longrightarrow>
     postfix_token t"
  by (simp add: postfix_token_def is_operand_def)

lemma input_token_pushed:
  "input_token t \<Longrightarrow>
     type t = Operator \<or> type t = Func1 \<or> type t = Func2 \<or> type t = Func3 \<or> type t = LParen \<Longrightarrow>
     stack_token t"
  by (auto simp: input_token_def stack_token_def is_operand_def is_applied_def)

lemma Operator_loop_invariant:
  "Operator_loop token rpn stack = Inr (rpn1, stack1) \<Longrightarrow>
     \<forall>t \<in> set rpn. postfix_token t \<Longrightarrow> \<forall>t \<in> set stack. stack_token t \<Longrightarrow>
     (\<forall>t \<in> set rpn1. postfix_token t) \<and> (\<forall>t \<in> set stack1. stack_token t)"
proof (induction stack arbitrary: rpn)
  case Nil
  then show ?case by simp
next
  case (Cons poped stack)
  from Cons.prems(3) have stack: "\<forall>t \<in> set stack. stack_token t"
    by simp
  show ?case
  proof (cases "type poped = Operator")
    case False
    with Cons.prems show ?thesis by simp
  next
    case True
    show ?thesis
    proof (cases "ret_preced (str token)")
      case (Inl e)
      with True Cons.prems(1) show ?thesis by simp
    next
      case preced_t: (Inr pt)
      show ?thesis
      proof (cases "ret_preced (str poped)")
        case (Inl e)
        with True preced_t Cons.prems(1) show ?thesis by simp
      next
        case preced_p: (Inr pp)
        show ?thesis
        proof (cases "is_left_assoc (str token)")
          case (Inl e)
          with True preced_t preced_p Cons.prems(1) show ?thesis by simp
        next
          case left: (Inr l)
          define keep where "keep \<longleftrightarrow> (if l then pt > pp else pt \<ge> pp)"
          from True preced_t preced_p left Cons.prems(1)
          have step: "(if keep then Inr (rpn, poped # stack)
                       else Operator_loop token (rpn @ [poped]) stack) = Inr (rpn1, stack1)"
            by (simp add: keep_def)
          show ?thesis
          proof (cases keep)
            case True
            with step have "rpn1 = rpn" and "stack1 = poped # stack"
              by simp_all
            with Cons.prems(2,3) show ?thesis by simp
          next
            case False
            with step
            have loop: "Operator_loop token (rpn @ [poped]) stack = Inr (rpn1, stack1)"
              by simp
            from Cons.prems(3) \<open>type poped = Operator\<close> have "postfix_token poped"
              by (simp add: stack_token_not_LParen)
            with Cons.prems(2) have "\<forall>t \<in> set (rpn @ [poped]). postfix_token t"
              by simp
            then show ?thesis
              using stack by (rule Cons.IH [OF loop])
          qed
        qed
      qed
    qed
  qed
qed

lemma case_of_Operator_invariant:
  assumes "extends_RESERVED R"
    and "case_of_Operator R rpn stack token b = Inr (rpn1, stack1)"
    and "stack_token token"
    and "\<forall>t \<in> set rpn. postfix_token t" and "\<forall>t \<in> set stack. stack_token t"
  shows "(\<forall>t \<in> set rpn1. postfix_token t) \<and> (\<forall>t \<in> set stack1. stack_token t)"
proof -
  from assms(2) consider
      (dropped) "rpn1 = rpn" and "stack1 = stack"
    | (negated) minus_one times rpn2 stack2 where
        "Token_of R ''-1'' = Inr minus_one" and "Token_of R ''*'' = Inr times"
        and "Operator_loop times (rpn @ [minus_one]) stack = Inr (rpn2, stack2)"
        and "rpn1 = rpn2" and "stack1 = times # stack2"
    | (binary) rpn2 stack2 where
        "Operator_loop token rpn stack = Inr (rpn2, stack2)"
        and "rpn1 = rpn2" and "stack1 = token # stack2"
    by (auto simp: case_of_Operator_def bind_err_def split: if_splits sum.splits)
  then show ?thesis
  proof cases
    case dropped
    with assms(4,5) show ?thesis by simp
  next
    case negated
    from Token_of_minus_one_postfix [OF assms(1) negated(1)] assms(4)
    have "\<forall>t \<in> set (rpn @ [minus_one]). postfix_token t"
      by simp
    from Operator_loop_invariant [OF negated(3) this assms(5)]
      Token_of_times_stack [OF assms(1) negated(2)] negated(4,5)
    show ?thesis by simp
  next
    case binary
    from Operator_loop_invariant [OF binary(1) assms(4,5)] assms(3) binary(2,3)
    show ?thesis by simp
  qed
qed

lemma RParen_loop_invariant:
  "RParen_loop rpn stack = Inr (rpn1, stack1) \<Longrightarrow>
     \<forall>t \<in> set rpn. postfix_token t \<Longrightarrow> \<forall>t \<in> set stack. stack_token t \<Longrightarrow>
     (\<forall>t \<in> set rpn1. postfix_token t) \<and> (\<forall>t \<in> set stack1. stack_token t)"
proof (induction stack arbitrary: rpn)
  case Nil
  then show ?case by simp
next
  case (Cons poped stack)
  show ?case
  proof (cases "type poped = LParen")
    case True
    with Cons.prems show ?thesis by simp
  next
    case False
    with Cons.prems(1) have loop: "RParen_loop (rpn @ [poped]) stack = Inr (rpn1, stack1)"
      by simp
    from Cons.prems(3) False have "postfix_token poped"
      by (simp add: stack_token_not_LParen)
    with Cons.prems(2) have "\<forall>t \<in> set (rpn @ [poped]). postfix_token t"
      by simp
    moreover from Cons.prems(3) have "\<forall>t \<in> set stack. stack_token t"
      by simp
    ultimately show ?thesis
      by (rule Cons.IH [OF loop])
  qed
qed

lemma case_of_RParen_invariant:
  assumes "case_of_RParen rpn stack = Inr (retval, rpn1, stack1)"
    and "\<forall>t \<in> set rpn. postfix_token t" and "\<forall>t \<in> set stack. stack_token t"
  shows "(\<forall>t \<in> set rpn1. postfix_token t) \<and> (\<forall>t \<in> set stack1. stack_token t)"
proof -
  from assms(1) consider
      (no_paren) "rpn1 = rpn" and "stack1 = stack"
    | (popped) "RParen_loop rpn stack = Inr (rpn1, stack1)"
    | (emitted) rpn2 stack2 where "RParen_loop rpn stack = Inr (rpn2, stack2)"
        and "stack2 \<noteq> []" and "func (hd stack2) \<noteq> None"
        and "rpn1 = rpn2 @ [hd stack2]" and "stack1 = tl stack2"
    by (auto simp: case_of_RParen_def Let_def split: if_splits sum.splits)
  then show ?thesis
  proof cases
    case no_paren
    with assms(2,3) show ?thesis by simp
  next
    case popped
    from RParen_loop_invariant [OF popped assms(2,3)] show ?thesis .
  next
    case emitted
    from RParen_loop_invariant [OF emitted(1) assms(2,3)]
    have rpn2: "\<forall>t \<in> set rpn2. postfix_token t" and stack2: "\<forall>t \<in> set stack2. stack_token t"
      by simp_all
    from emitted(2) obtain top rest where split: "stack2 = top # rest"
      by (cases stack2) auto
    with stack2 emitted(3) have "postfix_token top"
      by (simp add: stack_token_func)
    with rpn2 stack2 split emitted(4,5) show ?thesis
      by simp
  qed
qed

lemma Comma_loop_invariant:
  "Comma_loop rpn stack = Inr (rpn1, stack1) \<Longrightarrow>
     \<forall>t \<in> set rpn. postfix_token t \<Longrightarrow> \<forall>t \<in> set stack. stack_token t \<Longrightarrow>
     (\<forall>t \<in> set rpn1. postfix_token t) \<and> (\<forall>t \<in> set stack1. stack_token t)"
proof (induction stack arbitrary: rpn)
  case Nil
  then show ?case by simp
next
  case (Cons top stack)
  show ?case
  proof (cases "top = LPAREN_p")
    case True
    with Cons.prems show ?thesis by simp
  next
    case False
    with Cons.prems(1) have loop: "Comma_loop (rpn @ [top]) stack = Inr (rpn1, stack1)"
      by simp
    from Cons.prems(3) False have "postfix_token top"
      by (simp add: stack_token_not_LPAREN_p)
    with Cons.prems(2) have "\<forall>t \<in> set (rpn @ [top]). postfix_token t"
      by simp
    moreover from Cons.prems(3) have "\<forall>t \<in> set stack. stack_token t"
      by simp
    ultimately show ?thesis
      by (rule Cons.IH [OF loop])
  qed
qed

lemma case_of_Comma_invariant:
  assumes "case_of_Comma rpn stack = Inr (retval, rpn1, stack1)"
    and "\<forall>t \<in> set rpn. postfix_token t" and "\<forall>t \<in> set stack. stack_token t"
  shows "(\<forall>t \<in> set rpn1. postfix_token t) \<and> (\<forall>t \<in> set stack1. stack_token t)"
proof -
  from assms(1) consider
      (no_paren) "rpn1 = rpn" and "stack1 = stack"
    | (popped) "Comma_loop rpn stack = Inr (rpn1, stack1)"
    by (auto simp: case_of_Comma_def split: if_splits sum.splits)
  then show ?thesis
  proof cases
    case no_paren
    with assms(2,3) show ?thesis by simp
  next
    case popped
    from Comma_loop_invariant [OF popped assms(2,3)] show ?thesis .
  qed
qed

lemma token_loop_invariant:
  assumes R: "extends_RESERVED R"
  shows "token_loop R tokens rpn stack b = Inr (Some (rpn1, stack1)) \<Longrightarrow>
     \<forall>t \<in> set tokens. input_token t \<Longrightarrow>
     \<forall>t \<in> set rpn. postfix_token t \<Longrightarrow> \<forall>t \<in> set stack. stack_token t \<Longrightarrow>
     (\<forall>t \<in> set rpn1. postfix_token t) \<and> (\<forall>t \<in> set stack1. stack_token t)"
proof (induction tokens arbitrary: rpn stack b)
  case Nil
  then show ?case by simp
next
  case (Cons token tokens)
  from Cons.prems(2) have token: "input_token token"
    and tokens: "\<forall>t \<in> set tokens. input_token t"
    by simp_all
  from Cons.prems(1) consider
      (operand) "type token = Variable \<or> type token = Constant \<or> type token = Real \<or>
                 type token = Imaginary"
        and "token_loop R tokens (rpn @ [token]) stack False = Inr (Some (rpn1, stack1))"
    | (pushed) b' where "type token = Operator \<or> type token = Func1 \<or> type token = Func2 \<or>
                 type token = Func3 \<or> type token = LParen"
        and "token_loop R tokens rpn (token # stack) b' = Inr (Some (rpn1, stack1))"
    | (rparen) retval rpn2 stack2 where
        "case_of_RParen rpn stack = Inr (retval, rpn2, stack2)"
        and "token_loop R tokens rpn2 stack2 False = Inr (Some (rpn1, stack1))"
    | (comma) retval rpn2 stack2 where
        "case_of_Comma rpn stack = Inr (retval, rpn2, stack2)"
        and "token_loop R tokens rpn2 stack2 False = Inr (Some (rpn1, stack1))"
    | (operator) rpn2 stack2 where "type token = Operator"
        and "case_of_Operator R rpn stack token b = Inr (rpn2, stack2)"
        and "token_loop R tokens rpn2 stack2 True = Inr (Some (rpn1, stack1))"
  proof (cases "type token")
    case RParen
    with Cons.prems(1) that(3) show ?thesis
      by (cases "case_of_RParen rpn stack") (auto split: if_splits)
  next
    case Comma
    with Cons.prems(1) that(4) show ?thesis
      by (cases "case_of_Comma rpn stack") (auto split: if_splits)
  next
    case Operator
    with Cons.prems(1) that(5) show ?thesis
      by (cases "case_of_Operator R rpn stack token b") auto
  qed (use Cons.prems(1) that(1,2) in simp_all)
  then show ?case
  proof cases
    case operand
    from input_token_operand [OF token operand(1)] Cons.prems(3)
    have "\<forall>t \<in> set (rpn @ [token]). postfix_token t"
      by simp
    from Cons.IH [OF operand(2) tokens this Cons.prems(4)] show ?thesis .
  next
    case pushed
    from input_token_pushed [OF token pushed(1)] Cons.prems(4)
    have "\<forall>t \<in> set (token # stack). stack_token t"
      by simp
    from Cons.IH [OF pushed(2) tokens Cons.prems(3) this] show ?thesis .
  next
    case rparen
    from case_of_RParen_invariant [OF rparen(1) Cons.prems(3,4)]
    have "\<forall>t \<in> set rpn2. postfix_token t" and "\<forall>t \<in> set stack2. stack_token t"
      by simp_all
    from Cons.IH [OF rparen(2) tokens this] show ?thesis .
  next
    case comma
    from case_of_Comma_invariant [OF comma(1) Cons.prems(3,4)]
    have "\<forall>t \<in> set rpn2. postfix_token t" and "\<forall>t \<in> set stack2. stack_token t"
      by simp_all
    from Cons.IH [OF comma(2) tokens this] show ?thesis .
  next
    case operator
    from operator(1) have "type token = Operator \<or> type token = Func1 \<or> type token = Func2 \<or>
        type token = Func3 \<or> type token = LParen"
      by simp
    from case_of_Operator_invariant
      [OF R operator(2) input_token_pushed [OF token this] Cons.prems(3,4)]
    have "\<forall>t \<in> set rpn2. postfix_token t" and "\<forall>t \<in> set stack2. stack_token t"
      by simp_all
    from Cons.IH [OF operator(3) tokens this] show ?thesis .
  qed
qed

lemma remaining_loop_postfix:
  "\<forall>t \<in> set rpn. postfix_token t \<Longrightarrow> \<forall>t \<in> set stack. stack_token t \<Longrightarrow>
     \<forall>t \<in> set (remaining_loop rpn stack). postfix_token t"
proof (induction stack arbitrary: rpn)
  case Nil
  then show ?case by simp
next
  case (Cons top stack)
  show ?case
  proof (cases "has_LParen (top # stack)")
    case True
    then show ?thesis by (simp add: BAD_RPNs_def)
  next
    case False
    then have "top \<noteq> LPAREN_p"
      by (auto simp: has_LParen_def)
    with Cons.prems(2) have "postfix_token top"
      by (simp add: stack_token_not_LPAREN_p)
    with Cons.prems(1) have "\<forall>t \<in> set (rpn @ [top]). postfix_token t"
      by simp
    moreover from Cons.prems(2) have "\<forall>t \<in> set stack. stack_token t"
      by simp
    ultimately have "\<forall>t \<in> set (remaining_loop (rpn @ [top]) stack). postfix_token t"
      by (rule Cons.IH)
    with False show ?thesis by simp
  qed
qed

lemma make_rpn_postfix:
  assumes R: "extends_RESERVED R" and rpn: "make_rpn R formula' = Inr rpn"
  shows "\<forall>t \<in> set rpn. postfix_token t"
proof (cases "devide_to_tokens R formula'")
  case (Inl e)
  with rpn show ?thesis by (simp add: make_rpn_def bind_err_def)
next
  case tokens: (Inr tokens)
  from devide_loop_input_tokens [OF R, of "[]" "[]" formula' tokens] tokens
  have input: "\<forall>t \<in> set tokens. input_token t"
    by (simp add: devide_to_tokens_def)
  show ?thesis
  proof (cases "token_loop R tokens [] [] True")
    case (Inl e)
    with rpn tokens show ?thesis by (simp add: make_rpn_def bind_err_def)
  next
    case loop: (Inr r)
    show ?thesis
    proof (cases r)
      case None
      with rpn tokens loop show ?thesis
        by (simp add: make_rpn_def bind_err_def BAD_RPNs_def)
    next
      case (Some p)
      obtain rpn1 stack1 where p: "p = (rpn1, stack1)"
        by (cases p)
      from loop Some p have "token_loop R tokens [] [] True = Inr (Some (rpn1, stack1))"
        by simp
      from token_loop_invariant [OF R this input]
      have "\<forall>t \<in> set rpn1. postfix_token t" and "\<forall>t \<in> set stack1. stack_token t"
        by simp_all
      from remaining_loop_postfix [OF this] rpn tokens loop Some p show ?thesis
        by (simp add: make_rpn_def bind_err_def)
    qed
  qed
qed

subsection \<open>No underflow at evaluation\<close>

lemma parse_success:
  assumes "parse R this formula' = (Inr 0, this')"
  obtains rpn where "make_rpn R formula' = Inr rpn"
    and "compile_RPN rpn (vars this) = (Inr (crpn this'), vars this')"
proof (cases "make_rpn R formula'")
  case (Inl e)
  with assms show ?thesis by (simp add: parse_def)
next
  case rpn: (Inr rpn)
  obtain res var_list where compiled: "compile_RPN rpn (vars this) = (res, var_list)"
    by (cases "compile_RPN rpn (vars this)")
  show ?thesis
  proof (cases res)
    case (Inl e)
    with assms rpn compiled show ?thesis
      by (simp add: parse_def EINVAL_def split: if_splits)
  next
    case (Inr ops)
    with assms rpn compiled have "crpn this' = ops" and "vars this' = var_list"
      by (auto simp: parse_def EINVAL_def split: if_splits)
    with rpn compiled Inr that show ?thesis
      by simp
  qed
qed

lemma compiled_plan_runs:
  assumes R: "extends_RESERVED R"
    and parsed: "parse R this formula' = (Inr 0, this')"
    and bound: "vars this' \<subseteq> dom table'"
  shows "\<exists>v. run_CRPN (crpn this') [] table' = Inr [v]"
proof -
  from parsed obtain rpn where rpn: "make_rpn R formula' = Inr rpn"
    and compiled: "compile_RPN rpn (vars this) = (Inr (crpn this'), vars this')"
    by (rule parse_success)
  from make_rpn_postfix [OF R rpn] have postfix: "\<forall>t \<in> set rpn. postfix_token t" .
  then have kinds: "\<forall>t \<in> set rpn. is_operand t \<or> is_applied t"
    by (auto simp: postfix_token_def)
  from compiled have loop: "compile_loop rpn 0 [] {} = (Inr (crpn this'), vars this')"
    by (simp add: compile_RPN_def)
  from compile_loop_refines [OF kinds, of 0 "[]" "{}"] loop
  have depth: "spec_depth 0 rpn = Inr 1" and plan: "crpn this' = map spec_operation rpn"
    by (auto split: sum.splits if_splits)
  from compile_loop_variables [OF kinds depth, of "[]" "{}"] loop
  have "vars this' = spec_free_variables rpn"
    by simp
  with bound have free: "spec_free_variables rpn \<subseteq> dom table'"
    by simp
  from depth have "spec_depth (int (length ([] :: Stack))) rpn = Inr 1"
    by simp
  from run_postfix [OF postfix this free] plan
  obtain stack' where run: "run_CRPN (crpn this') [] table' = Inr stack'"
    and "int (length stack') = 1"
    by auto
  then obtain v where "stack' = [v]"
    by (cases stack') auto
  with run show ?thesis
    by simp
qed

text \<open>
  C7. Let the registry be the built-in one, possibly extended by functions that return
  on argument vectors of their arity. After a successful \<open>parse\<close>, running the
  compiled operations in order from the empty stack, on any table that binds all the
  free variables, raises no error (in particular it never reads or pops the back of an
  empty stack) and ends with exactly one value on the stack, which is the value
  returned; so the function that \<open>ret_func\<close> builds returns a value whenever the
  stored table and the designated name cover the free variables.
\<close>

theorem C7_evaluation_never_underflows:
  assumes "extends_RESERVED R"
    and "parse R this formula' = (Inr 0, this')"
    and "vars this' \<subseteq> dom table'"
  shows "(\<exists>v. run_CRPN (crpn this') [] table' = Inr [v] \<and>
              bind_err (run_CRPN (crpn this') [] table') front = Inr v) \<and>
         (vars this' \<subseteq> insert x (dom (table this')) \<longrightarrow>
            (\<exists>f v. ret_func this' x = Inr f \<and> f value' = Inr v))"
proof
  from compiled_plan_runs [OF assms] obtain v where
    "run_CRPN (crpn this') [] table' = Inr [v]"
    by blast
  then show "\<exists>v. run_CRPN (crpn this') [] table' = Inr [v] \<and>
               bind_err (run_CRPN (crpn this') [] table') front = Inr v"
    by (simp add: bind_err_def front_def)
next
  show "vars this' \<subseteq> insert x (dom (table this')) \<longrightarrow>
          (\<exists>f v. ret_func this' x = Inr f \<and> f value' = Inr v)"
  proof
    assume bound: "vars this' \<subseteq> insert x (dom (table this'))"
    then have "vars this' \<subseteq> dom (plus_assign (table this') (x, value'))"
      by (auto simp: plus_assign_def)
    from compiled_plan_runs [OF assms(1,2) this] obtain v where
      "run_CRPN (crpn this') [] (plus_assign (table this') (x, value')) = Inr [v]"
      by blast
    then have "ret_func_closure (table this') (crpn this') x value' = Inr v"
      by (simp add: ret_func_closure_def bind_err_def front_def)
    moreover from bound
    have "ret_func this' x = Inr (ret_func_closure (table this') (crpn this') x)"
      by (auto simp: ret_func_def contains_def)
    ultimately show "\<exists>f v. ret_func this' x = Inr f \<and> f value' = Inr v"
      by blast
  qed
qed

lemma RESERVED_TOKEN_extends: "extends_RESERVED RESERVED_TOKEN"
  by (simp add: extends_RESERVED_def split: option.splits)

lemma parse_x_plus_1:
  "fst (parse RESERVED_TOKEN Syamfp_default ''x + 1'') = Inr 0 \<and>
   vars (snd (parse RESERVED_TOKEN Syamfp_default ''x + 1'')) = {''x''} \<and>
   table (snd (parse RESERVED_TOKEN Syamfp_default ''x + 1'')) = Map.empty"
  by (simp add: tokenizer_defs converter_defs evaluator_defs)

text \<open>
  The theorem at the built-in registry, the formula \<^verbatim>\<open>x + 1\<close> and the value 2 for
  \<^verbatim>\<open>x\<close>.
\<close>

theorem C7_evaluation_witness:
  "extends_RESERVED RESERVED_TOKEN \<and>
   fst (parse RESERVED_TOKEN Syamfp_default ''x + 1'') = Inr 0 \<and>
   vars (snd (parse RESERVED_TOKEN Syamfp_default ''x + 1'')) \<subseteq>
     dom [''x'' \<mapsto> 2 :: complex] \<and>
   vars (snd (parse RESERVED_TOKEN Syamfp_default ''x + 1'')) \<subseteq>
     insert ''x'' (dom (table (snd (parse RESERVED_TOKEN Syamfp_default ''x + 1'')))) \<and>
   (\<exists>v. run_CRPN (crpn (snd (parse RESERVED_TOKEN Syamfp_default ''x + 1''))) []
           [''x'' \<mapsto> 2] = Inr [v] \<and>
        bind_err
          (run_CRPN (crpn (snd (parse RESERVED_TOKEN Syamfp_default ''x + 1''))) []
             [''x'' \<mapsto> 2]) front = Inr v) \<and>
   (\<exists>f v. ret_func (snd (parse RESERVED_TOKEN Syamfp_default ''x + 1'')) ''x'' = Inr f \<and>
          f 2 = Inr v)"
proof -
  let ?this' = "snd (parse RESERVED_TOKEN Syamfp_default ''x + 1'')"
  have ok: "fst (parse RESERVED_TOKEN Syamfp_default ''x + 1'') = Inr 0"
    using parse_x_plus_1 by (rule conjunct1)
  then have parsed: "parse RESERVED_TOKEN Syamfp_default ''x + 1'' = (Inr 0, ?this')"
    by (simp add: prod_eq_iff)
  have bound: "vars ?this' \<subseteq> dom [''x'' \<mapsto> 2 :: complex]"
    using parse_x_plus_1 by simp
  have free: "vars ?this' \<subseteq> insert ''x'' (dom (table ?this'))"
    using parse_x_plus_1 by simp
  note run = C7_evaluation_never_underflows
    [OF RESERVED_TOKEN_extends parsed bound, of "''x''" 2]
  from run have first:
    "\<exists>v. run_CRPN (crpn ?this') [] [''x'' \<mapsto> 2] = Inr [v] \<and>
         bind_err (run_CRPN (crpn ?this') [] [''x'' \<mapsto> 2]) front = Inr v"
    by (rule conjunct1)
  from run have "vars ?this' \<subseteq> insert ''x'' (dom (table ?this')) \<longrightarrow>
      (\<exists>f v. ret_func ?this' ''x'' = Inr f \<and> f 2 = Inr v)"
    by (rule conjunct2)
  from this free have second: "\<exists>f v. ret_func ?this' ''x'' = Inr f \<and> f 2 = Inr v"
    by (rule mp)
  show ?thesis
    by (rule conjI [OF RESERVED_TOKEN_extends conjI [OF ok conjI [OF bound
          conjI [OF free conjI [OF first second]]]]])
qed

subsection \<open>The free variables after a successful parse\<close>

text \<open>
  After a parse that succeeds, \<open>vars\<close> is the set of variables the stored plan reads,
  so there \<open>ret_func\<close> raises its error exactly when a variable of the compiled
  formula is neither in the table nor the designated name.
\<close>

lemma referenced_spec_operation:
  "referenced_variables (map spec_operation rpn) = spec_free_variables rpn"
proof -
  have "referenced (spec_operation t) = (if type t = Variable then {str t} else {})" for t
    by (simp add: spec_operation_def)
  then show ?thesis
    by (auto simp: referenced_variables_def spec_free_variables_def split: if_splits)
qed

lemma parse_success_vars:
  assumes R: "extends_RESERVED R"
    and parsed: "parse R this formula' = (Inr 0, this')"
  shows "vars this' = referenced_variables (crpn this')"
proof -
  from parsed obtain rpn where rpn: "make_rpn R formula' = Inr rpn"
    and compiled: "compile_RPN rpn (vars this) = (Inr (crpn this'), vars this')"
    by (rule parse_success)
  from make_rpn_postfix [OF R rpn]
  have kinds: "\<forall>t \<in> set rpn. is_operand t \<or> is_applied t"
    by (auto simp: postfix_token_def)
  from compiled have loop: "compile_loop rpn 0 [] {} = (Inr (crpn this'), vars this')"
    by (simp add: compile_RPN_def)
  from compile_loop_refines [OF kinds, of 0 "[]" "{}"] loop
  have depth: "spec_depth 0 rpn = Inr 1" and plan: "crpn this' = map spec_operation rpn"
    by (auto split: sum.splits if_splits)
  from compile_loop_variables [OF kinds depth, of "[]" "{}"] loop
  have "vars this' = spec_free_variables rpn"
    by simp
  with plan show ?thesis
    by (simp add: referenced_spec_operation)
qed

lemma ret_func_after_parse:
  assumes "extends_RESERVED R" and "parse R this formula' = (Inr 0, this')"
  shows "(\<exists>e. ret_func this' x = Inl e) \<longleftrightarrow>
         (\<exists>s. s \<in> referenced_variables (crpn this') \<and> s \<notin> dom (table this') \<and> s \<noteq> x)"
  using parse_success_vars [OF assms]
  by (auto simp: ret_func_def contains_def)

end
